theory Spec2Isabelle
  imports Main "HOL-Library.Sublist"
begin

section \<open>The Go library functions that compress.go calls\<close>

type_synonym bytes = "char list"

subsection \<open>strings.Split, strings.TrimSpace, strings.HasPrefix\<close>

text \<open>
  \<^verbatim>\<open>strings.Split(s, sep)\<close> for a separator of one byte, the only use in compress.go
  (\<^verbatim>\<open>","\<close>). The empty string splits into one empty piece, as in Go.
\<close>

fun Split :: "string \<Rightarrow> char \<Rightarrow> string list" where
  "Split [] sep = [[]]"
| "Split (ch # cs) sep =
     (if ch = sep then [] # Split cs sep
      else (case Split cs sep of [] \<Rightarrow> [[ch]] | t # ts \<Rightarrow> (ch # t) # ts))"

text \<open>
  \<^verbatim>\<open>strings.TrimSpace\<close> removes the leading and the trailing runes that
  \<^verbatim>\<open>unicode.IsSpace\<close> accepts. A Go string is a byte sequence, and a rune is a white
  space exactly when its UTF-8 encoding is one of the byte sequences below (an invalid or
  overlong encoding decodes to U+FFFD, which is no space), so trimming is the repeated
  removal of one of these sequences at either end.
\<close>

definition spaceRunes :: "string list" where
  "spaceRunes =
     [[CHR 0x09], [CHR 0x0A], [CHR 0x0B], [CHR 0x0C], [CHR 0x0D], [CHR 0x20],
      [CHR 0xC2, CHR 0x85], [CHR 0xC2, CHR 0xA0],
      [CHR 0xE1, CHR 0x9A, CHR 0x80],
      [CHR 0xE2, CHR 0x80, CHR 0x80], [CHR 0xE2, CHR 0x80, CHR 0x81],
      [CHR 0xE2, CHR 0x80, CHR 0x82], [CHR 0xE2, CHR 0x80, CHR 0x83],
      [CHR 0xE2, CHR 0x80, CHR 0x84], [CHR 0xE2, CHR 0x80, CHR 0x85],
      [CHR 0xE2, CHR 0x80, CHR 0x86], [CHR 0xE2, CHR 0x80, CHR 0x87],
      [CHR 0xE2, CHR 0x80, CHR 0x88], [CHR 0xE2, CHR 0x80, CHR 0x89],
      [CHR 0xE2, CHR 0x80, CHR 0x8A],
      [CHR 0xE2, CHR 0x80, CHR 0xA8], [CHR 0xE2, CHR 0x80, CHR 0xA9],
      [CHR 0xE2, CHR 0x80, CHR 0xAF], [CHR 0xE2, CHR 0x81, CHR 0x9F],
      [CHR 0xE3, CHR 0x80, CHR 0x80]]"

fun dropSpaceRune :: "string list \<Rightarrow> string \<Rightarrow> string option" where
  "dropSpaceRune [] s = None"
| "dropSpaceRune (q # qs) s =
     (if q \<noteq> [] \<and> take (length q) s = q then Some (drop (length q) s)
      else dropSpaceRune qs s)"

lemma dropSpaceRune_shorter: "dropSpaceRune qs s = Some r \<Longrightarrow> length r < length s"
proof (induction qs)
  case Nil
  then show ?case by simp
next
  case (Cons q qs)
  show ?case
  proof (cases "q \<noteq> [] \<and> take (length q) s = q")
    case True
    then obtain a q' where q: "q = a # q'"
      by (cases q) auto
    from True have "length q \<le> length s"
      by (metis length_take min.cobounded1)
    with q have "Suc (length q') \<le> length s" by simp
    moreover from True Cons.prems q have "r = drop (Suc (length q')) s" by simp
    ultimately show ?thesis by simp
  next
    case False
    with Cons show ?thesis by auto
  qed
qed

function trimLeft :: "string list \<Rightarrow> string \<Rightarrow> string" where
  "trimLeft qs s = (case dropSpaceRune qs s of None \<Rightarrow> s | Some r \<Rightarrow> trimLeft qs r)"
  by pat_completeness auto
termination
  by (relation "measure (\<lambda>(qs, s). length s)") (auto dest: dropSpaceRune_shorter)

declare trimLeft.simps [simp del]

definition TrimSpace :: "string \<Rightarrow> string" where
  "TrimSpace s = rev (trimLeft (map rev spaceRunes) (rev (trimLeft spaceRunes s)))"

definition HasPrefix :: "string \<Rightarrow> string \<Rightarrow> bool" where
  "HasPrefix s pre = (take (length pre) s = pre)"

subsection \<open>strconv.Atoi and strconv.Itoa\<close>

text \<open>
  \<^verbatim>\<open>strconv.Atoi(s)\<close> is \<^verbatim>\<open>ParseInt(s, 10, 0)\<close> converted to \<^verbatim>\<open>int\<close>, here of 64
  bits. It returns a value together with an error: a syntax error comes with the value 0,
  a range error with the largest magnitude \<^verbatim>\<open>int\<close> of the sign. \<^verbatim>\<open>ParseUint\<close> reads the
  digits from the left and stops at the first byte that is no digit (syntax error) or at
  the first digit that takes the value beyond 64 bits (range error), whichever comes first.
\<close>

datatype numError = ErrSyntax | ErrRange

definition maxUint64 :: nat where
  "maxUint64 = 2 ^ 64 - 1"

definition maxInt64 :: int where
  "maxInt64 = 2 ^ 63 - 1"

definition minInt64 :: int where
  "minInt64 = - (2 ^ 63)"

definition digitVal :: "char \<Rightarrow> nat option" where
  "digitVal ch =
     (let v = (of_char ch :: nat) in if 48 \<le> v \<and> v \<le> 57 then Some (v - 48) else None)"

fun parseUintLoop :: "nat \<Rightarrow> string \<Rightarrow> nat \<times> numError option" where
  "parseUintLoop n [] = (n, None)"
| "parseUintLoop n (ch # cs) =
     (case digitVal ch of
        None \<Rightarrow> (0, Some ErrSyntax)
      | Some d \<Rightarrow>
          if maxUint64 div 10 + 1 \<le> n then (maxUint64, Some ErrRange)
          else if maxUint64 < n * 10 + d then (maxUint64, Some ErrRange)
          else parseUintLoop (n * 10 + d) cs)"

definition ParseUint :: "string \<Rightarrow> nat \<times> numError option" where
  "ParseUint s = (if s = [] then (0, Some ErrSyntax) else parseUintLoop 0 s)"

definition ParseInt :: "string \<Rightarrow> int \<times> numError option" where
  "ParseInt s =
     (if s = [] then (0, Some ErrSyntax)
      else
        let neg = (hd s = CHR ''-'');
            s' = (if hd s = CHR ''+'' \<or> hd s = CHR ''-'' then tl s else s);
            (un, e) = ParseUint s'
        in if e = Some ErrSyntax then (0, Some ErrSyntax)
           else if \<not> neg \<and> 2 ^ 63 \<le> un then (maxInt64, Some ErrRange)
           else if neg \<and> 2 ^ 63 < un then (minInt64, Some ErrRange)
           else (if neg then - int un else int un, None))"

definition Atoi :: "string \<Rightarrow> int \<times> numError option" where
  "Atoi s = ParseInt s"

definition digitChar :: "nat \<Rightarrow> char" where
  "digitChar d = ''0123456789'' ! d"

function natDigits :: "nat \<Rightarrow> string" where
  "natDigits n = (if n < 10 then [digitChar n] else natDigits (n div 10) @ [digitChar (n mod 10)])"
  by pat_completeness auto
termination
  by (relation "measure (\<lambda>n. n)") auto

declare natDigits.simps [simp del]

definition Itoa :: "int \<Rightarrow> string" where
  "Itoa i = (if i < 0 then CHR ''-'' # natDigits (nat (- i)) else natDigits (nat i))"

subsection \<open>http.Header\<close>

text \<open>
  An \<^verbatim>\<open>http.Header\<close> maps a key to its list of values. \<^verbatim>\<open>Get\<close> returns the first
  value of the key, or the empty string; \<^verbatim>\<open>Set\<close> replaces the values of the key by one
  value; \<^verbatim>\<open>Del\<close> removes the key. The methods canonicalise the key they are given; every
  key compress.go passes is canonical already.
\<close>

type_synonym header = "string \<Rightarrow> string list option"

definition Get :: "header \<Rightarrow> string \<Rightarrow> string" where
  "Get hdr key = (case hdr key of None \<Rightarrow> [] | Some [] \<Rightarrow> [] | Some (v # vs) \<Rightarrow> v)"

definition Set :: "header \<Rightarrow> string \<Rightarrow> string \<Rightarrow> header" where
  "Set hdr key v = hdr(key \<mapsto> [v])"

definition Del :: "header \<Rightarrow> string \<Rightarrow> header" where
  "Del hdr key = hdr(key := None)"

section \<open>compress.go: constants, codec choice, negotiation\<close>

definition hdrAcceptEncoding :: string where "hdrAcceptEncoding = ''Accept-Encoding''"
definition hdrContentEncoding :: string where "hdrContentEncoding = ''Content-Encoding''"
definition hdrContentEncodingGzip :: string where "hdrContentEncodingGzip = ''gzip''"
definition hdrContentEncodingDeflate :: string where "hdrContentEncodingDeflate = ''deflate''"
definition hdrContentLength :: string where "hdrContentLength = ''Content-Length''"
definition hdrContentType :: string where "hdrContentType = ''Content-Type''"
definition hdrTrailer :: string where "hdrTrailer = ''Trailer''"
definition hdrVary :: string where "hdrVary = ''Vary''"

definition StatusOK :: int where "StatusOK = 200"

text \<open>
  \<^verbatim>\<open>compType\<close> is an integer type with the three named values 0, 1 and 2;
  \<^verbatim>\<open>checkAcceptEncoding\<close> returns no other, and \<^verbatim>\<open>compStrings\<close> has their names.
\<close>

datatype compType = compNone | compGzip | compDeflate

definition compStrings :: "string list" where
  "compStrings = [''none'', hdrContentEncodingGzip, hdrContentEncodingDeflate]"

fun compIndex :: "compType \<Rightarrow> nat" where
  "compIndex compNone = 0"
| "compIndex compGzip = 1"
| "compIndex compDeflate = 2"

definition compOfIndex :: "nat \<Rightarrow> compType" where
  "compOfIndex i = (if i = 1 then compGzip else if i = 2 then compDeflate else compNone)"

definition String :: "compType \<Rightarrow> string" where
  "String cmp = compStrings ! compIndex cmp"

text \<open>The inner loop of \<^verbatim>\<open>checkAcceptEncoding\<close>: the index of the first name equal to \<open>e\<close>.\<close>

fun matchName :: "nat \<Rightarrow> string list \<Rightarrow> string \<Rightarrow> nat option" where
  "matchName i [] e = None"
| "matchName i (name # names) e = (if name = e then Some i else matchName (Suc i) names e)"

text \<open>The outer loop, over the pieces of the header value.\<close>

fun checkEncodings :: "string list \<Rightarrow> compType" where
  "checkEncodings [] = compNone"
| "checkEncodings (enc # encs) =
     (case matchName 0 compStrings (TrimSpace enc) of
        Some i \<Rightarrow> compOfIndex i
      | None \<Rightarrow> checkEncodings encs)"

definition checkAcceptEncoding :: "header \<Rightarrow> compType" where
  "checkAcceptEncoding hdr = checkEncodings (Split (Get hdr hdrAcceptEncoding) CHR '','')"

section \<open>compress.go: eligibility\<close>

text \<open>
  The two package variables, which a program may change before it serves: the functions
  below read them from a configuration. Both are of type \<^verbatim>\<open>int\<close> in Go.
  \<open>CompressMaxBuf\<close> is a natural number here: with a negative value
  \<^verbatim>\<open>buf.Grow(CompressMaxBuf)\<close> panics.
\<close>

record config =
  CompressMinLength :: int
  CompressMaxBuf :: nat

definition defaults :: config where
  "defaults = \<lparr>CompressMinLength = 256, CompressMaxBuf = 16 * 1024\<rparr>"

definition checkHeaderHas :: "header \<Rightarrow> string \<Rightarrow> bool" where
  "checkHeaderHas hdr key = (Get hdr key \<noteq> [])"

text \<open>The error of \<^verbatim>\<open>strconv.Atoi\<close> is dropped, the value is kept.\<close>

definition getContentLength :: "header \<Rightarrow> int" where
  "getContentLength hdr = fst (Atoi (Get hdr hdrContentLength))"

definition isCompressableType :: "header \<Rightarrow> bool" where
  "isCompressableType hdr =
     (let mtype = Get hdr hdrContentType
      in if HasPrefix mtype ''text/'' \<or>
            HasPrefix mtype ''image/svg'' \<or>
            HasPrefix mtype ''application/javascript'' \<or>
            HasPrefix mtype ''application/x-javascript''
         then True else False)"

definition checkIsCompressable :: "config \<Rightarrow> int \<Rightarrow> header \<Rightarrow> bool" where
  "checkIsCompressable cfg code hdr =
     (code = StatusOK \<and>
      CompressMinLength cfg \<le> getContentLength hdr \<and>
      \<not> checkHeaderHas hdr hdrTrailer \<and>
      \<not> checkHeaderHas hdr hdrContentEncoding \<and>
      isCompressableType hdr)"

section \<open>The collaborators of the sink\<close>

subsection \<open>Errors\<close>

text \<open>
  \<open>ErrNew\<close> is an error made by \<^verbatim>\<open>errors.New\<close> or \<^verbatim>\<open>fmt.Errorf\<close>, \<open>ErrIO\<close> an
  error of the network connection, \<open>ErrWrap\<close> the result of \<^verbatim>\<open>errors.Wrap\<close>, which
  maps nil to nil.
\<close>

datatype error = ErrNew string | ErrIO string | ErrWrap error string

definition errorsWrap :: "error option \<Rightarrow> string \<Rightarrow> error option" where
  "errorsWrap e msg = (case e of None \<Rightarrow> None | Some x \<Rightarrow> Some (ErrWrap x msg))"

subsection \<open>The underlying http.ResponseWriter\<close>

text \<open>
  The network side is known by the calls it receives, in order. A \<^verbatim>\<open>WriteHeader\<close>
  call is recorded with the header map as it stands at the call, which is what the server
  sends. Whether the writer is an \<^verbatim>\<open>http.Flusher\<close> is a flag. The results of its coming
  \<^verbatim>\<open>Write\<close> calls are a list read from the left: \<open>None\<close>, or no entry, is a write of
  all bytes; \<open>Some (n, e)\<close> is a write of at most \<open>n\<close> bytes that fails with \<open>e\<close>.
\<close>

datatype event = EvWriteHeader int header | EvWrite bytes | EvFlush

record responseWriter =
  rw_header :: header
  rw_calls :: "event list"
  rw_flusher :: bool
  rw_results :: "(nat \<times> error) option list"

definition rw_WriteHeader :: "responseWriter \<Rightarrow> int \<Rightarrow> responseWriter" where
  "rw_WriteHeader rw code = rw\<lparr>rw_calls := rw_calls rw @ [EvWriteHeader code (rw_header rw)]\<rparr>"

definition rw_Write :: "responseWriter \<Rightarrow> bytes \<Rightarrow> responseWriter \<times> nat \<times> error option" where
  "rw_Write rw p =
     (let rw' = rw\<lparr>rw_calls := rw_calls rw @ [EvWrite p], rw_results := tl (rw_results rw)\<rparr>
      in case rw_results rw of
           [] \<Rightarrow> (rw', length p, None)
         | None # rs \<Rightarrow> (rw', length p, None)
         | Some (n, e) # rs \<Rightarrow> (rw', min n (length p), Some e))"

definition rw_Flush :: "responseWriter \<Rightarrow> responseWriter" where
  "rw_Flush rw = rw\<lparr>rw_calls := rw_calls rw @ [EvFlush]\<rparr>"

subsection \<open>The compressors of compress/gzip and compress/flate\<close>

text \<open>
  A compressor is a deterministic stream transformer: the bytes it hands to the writer it
  was opened on, at each call, are a function of the calls so far. That function is the
  parameter \<open>codec\<close>; the bytes of one call are handed over in one write, and no write
  is made for no bytes. A compressor keeps the first error of its writer and returns it
  from then on without further work; it has no error of its own. Opening writes nothing. It
  fails exactly when the level is outside \<open>[-2, 9]\<close> (\<^verbatim>\<open>flate.HuffmanOnly\<close> to
  \<^verbatim>\<open>flate.BestCompression\<close>), and then returns a nil pointer.
\<close>

datatype zcall = ZWrite bytes | ZFlush | ZClose

datatype ztarget = ToBuf | ToResponseWriter

record compressor =
  z_comp :: compType
  z_level :: int
  z_target :: ztarget
  z_calls :: "zcall list"
  z_err :: "error option"

type_synonym codec = "compType \<Rightarrow> int \<Rightarrow> zcall list \<Rightarrow> zcall \<Rightarrow> bytes"

definition BestCompression :: int where "BestCompression = 9"
definition HuffmanOnly :: int where "HuffmanOnly = - 2"

text \<open>
  A value of the interface \<^verbatim>\<open>writeCloseFlusher\<close>: the nil interface, an interface
  holding a nil pointer (which is not equal to nil), or an open compressor.
\<close>

datatype zref = ZNil | ZNilPtr | ZOpen compressor

definition openCompressor :: "compType \<Rightarrow> ztarget \<Rightarrow> int \<Rightarrow> compressor" where
  "openCompressor cmp tgt lvl =
     \<lparr>z_comp = cmp, z_level = lvl, z_target = tgt, z_calls = [], z_err = None\<rparr>"

definition gzip_NewWriterLevel :: "ztarget \<Rightarrow> int \<Rightarrow> zref \<times> error option" where
  "gzip_NewWriterLevel tgt lvl =
     (if lvl < HuffmanOnly \<or> BestCompression < lvl
      then (ZNilPtr, Some (ErrNew (''gzip: invalid compression level: '' @ Itoa lvl)))
      else (ZOpen (openCompressor compGzip tgt lvl), None))"

definition flate_NewWriter :: "ztarget \<Rightarrow> int \<Rightarrow> zref \<times> error option" where
  "flate_NewWriter tgt lvl =
     (if lvl < HuffmanOnly \<or> BestCompression < lvl
      then (ZNilPtr, Some (ErrNew (''flate: invalid compression level '' @ Itoa lvl @
                                   '': want value in range [-2, 9]'')))
      else (ZOpen (openCompressor compDeflate tgt lvl), None))"

definition getCompressor :: "compType \<Rightarrow> ztarget \<Rightarrow> int \<Rightarrow> zref \<times> error option" where
  "getCompressor cmp tgt lvl =
     (let (comp, e) =
        (case cmp of
           compGzip \<Rightarrow> gzip_NewWriterLevel tgt lvl
         | compDeflate \<Rightarrow> flate_NewWriter tgt lvl
         | compNone \<Rightarrow> (ZNil, Some (ErrNew ''Unknown compressor type'')))
      in (comp, errorsWrap e ''Opening compressor failed''))"

section \<open>compress.go: compressResponseWriter\<close>

text \<open>
  The field \<^verbatim>\<open>w\<close> is the underlying writer, the buffer, or whatever \<^verbatim>\<open>z\<close> holds;
  before the first \<^verbatim>\<open>WriteHeader\<close> it is nil. \<open>crw_bufcap\<close> is the capacity that
  \<^verbatim>\<open>buf.Grow\<close> has reserved.
\<close>

datatype wref = WNil | WResponseWriter | WBuf | WCompressor

record compressResponseWriter =
  crw_ResponseWriter :: responseWriter
  crw_z :: zref
  crw_buf :: bytes
  crw_bufcap :: nat
  crw_w :: wref
  crw_c :: compType
  crw_level :: int
  crw_code :: int
  crw_err :: "error option"
  crw_wroteHeader :: bool
  crw_isBuffered :: bool

text \<open>A call either returns or panics (a nil dereference); the state is there in both cases.\<close>

datatype 'a result = Returns 'a | Panics

definition newCompressResponseWriter ::
  "responseWriter \<Rightarrow> compType \<Rightarrow> int \<Rightarrow> compressResponseWriter" where
  "newCompressResponseWriter rw cmp lvl =
     \<lparr>crw_ResponseWriter = rw, crw_z = ZNil, crw_buf = [], crw_bufcap = 0, crw_w = WNil,
      crw_c = cmp, crw_level = lvl, crw_code = 0, crw_err = None,
      crw_wroteHeader = False, crw_isBuffered = False\<rparr>"

definition Header :: "compressResponseWriter \<Rightarrow> header" where
  "Header crw = rw_header (crw_ResponseWriter crw)"

definition updHeader :: "(header \<Rightarrow> header) \<Rightarrow> compressResponseWriter \<Rightarrow> compressResponseWriter" where
  "updHeader f crw =
     crw\<lparr>crw_ResponseWriter :=
           (crw_ResponseWriter crw)\<lparr>rw_header := f (rw_header (crw_ResponseWriter crw))\<rparr>\<rparr>"

definition buf_Grow :: "compressResponseWriter \<Rightarrow> nat \<Rightarrow> compressResponseWriter" where
  "buf_Grow crw n = crw\<lparr>crw_bufcap := max (crw_bufcap crw) (length (crw_buf crw) + n)\<rparr>"

text \<open>
  One call of the compressor \<open>zc\<close> held in \<^verbatim>\<open>crw.z\<close>: the bytes the codec emits go to the
  buffer or to the underlying writer, whose error the compressor keeps and returns.
\<close>

definition z_call ::
  "codec \<Rightarrow> compressResponseWriter \<Rightarrow> compressor \<Rightarrow> zcall \<Rightarrow> compressResponseWriter \<times> error option" where
  "z_call cdc crw zc call =
     (case z_err zc of
        Some e \<Rightarrow> (crw, Some e)
      | None \<Rightarrow>
          let out = cdc (z_comp zc) (z_level zc) (z_calls zc) call;
              zc' = zc\<lparr>z_calls := z_calls zc @ [call]\<rparr>
          in if out = [] then (crw\<lparr>crw_z := ZOpen zc'\<rparr>, None)
             else (case z_target zc of
                     ToBuf \<Rightarrow> (crw\<lparr>crw_z := ZOpen zc', crw_buf := crw_buf crw @ out\<rparr>, None)
                   | ToResponseWriter \<Rightarrow>
                       let (rw', n, e) = rw_Write (crw_ResponseWriter crw) out
                       in (crw\<lparr>crw_z := ZOpen (zc'\<lparr>z_err := e\<rparr>), crw_ResponseWriter := rw'\<rparr>, e)))"

text \<open>The writer a compressor is opened on: the value of \<^verbatim>\<open>crw.w\<close> at that moment.\<close>

definition targetOf :: "wref \<Rightarrow> ztarget" where
  "targetOf wr = (if wr = WBuf then ToBuf else ToResponseWriter)"

definition WriteHeader :: "config \<Rightarrow> compressResponseWriter \<Rightarrow> int \<Rightarrow> compressResponseWriter" where
  "WriteHeader cfg crw code =
     (if crw_wroteHeader crw then crw
      else
        let crw1 = crw\<lparr>crw_wroteHeader := True, crw_w := WResponseWriter\<rparr>;
            hdr = Header crw1;
            crw2 =
              (if checkIsCompressable cfg code hdr then
                 let crw3 =
                       (if getContentLength hdr < int (CompressMaxBuf cfg)
                        then (buf_Grow crw1 (CompressMaxBuf cfg))
                               \<lparr>crw_w := WBuf, crw_code := code, crw_isBuffered := True\<rparr>
                        else crw1);
                     (zr, e) = getCompressor (crw_c crw3) (targetOf (crw_w crw3)) (crw_level crw3);
                     crw4 = crw3\<lparr>crw_z := zr, crw_err := e, crw_w := WCompressor\<rparr>
                 in updHeader (\<lambda>h. Set (Set (Del h hdrContentLength)
                                             hdrContentEncoding (String (crw_c crw4)))
                                        hdrVary hdrAcceptEncoding) crw4
               else crw1)
        in if \<not> crw_isBuffered crw2
           then crw2\<lparr>crw_ResponseWriter := rw_WriteHeader (crw_ResponseWriter crw2) code\<rparr>
           else crw2)"

text \<open>\<^verbatim>\<open>crw.w.Write(p)\<close>: \<open>None\<close> is the panic of a call through nil.\<close>

definition w_Write ::
  "codec \<Rightarrow> compressResponseWriter \<Rightarrow> bytes \<Rightarrow> (compressResponseWriter \<times> nat \<times> error option) option" where
  "w_Write cdc crw p =
     (case crw_w crw of
        WNil \<Rightarrow> None
      | WResponseWriter \<Rightarrow>
          (let (rw', n, e) = rw_Write (crw_ResponseWriter crw) p
           in Some (crw\<lparr>crw_ResponseWriter := rw'\<rparr>, n, e))
      | WBuf \<Rightarrow> Some (crw\<lparr>crw_buf := crw_buf crw @ p\<rparr>, length p, None)
      | WCompressor \<Rightarrow>
          (case crw_z crw of
             ZOpen zc \<Rightarrow>
               (let (crw', e) = z_call cdc crw zc (ZWrite p)
                in Some (crw', if e = None then length p else 0, e))
           | _ \<Rightarrow> None))"

definition Write ::
  "codec \<Rightarrow> config \<Rightarrow> compressResponseWriter \<Rightarrow> bytes \<Rightarrow>
     compressResponseWriter \<times> (nat \<times> error option) result" where
  "Write cdc cfg crw p =
     (case crw_err crw of
        Some e \<Rightarrow> (crw, Returns (0, Some e))
      | None \<Rightarrow>
          let crw1 = (if \<not> crw_wroteHeader crw then WriteHeader cfg crw StatusOK else crw)
          in (case w_Write cdc crw1 p of
                None \<Rightarrow> (crw1, Panics)
              | Some (crw2, n, e) \<Rightarrow>
                  let e' = errorsWrap e ''Write in compressResponseWriter failed''
                  in (crw2\<lparr>crw_err := e'\<rparr>, Returns (n, e'))))"

text \<open>The call of \<^verbatim>\<open>Flush\<close> on the underlying writer when it is an \<^verbatim>\<open>http.Flusher\<close>.\<close>

definition flushUnderlying :: "compressResponseWriter \<Rightarrow> compressResponseWriter" where
  "flushUnderlying crw =
     (if rw_flusher (crw_ResponseWriter crw)
      then crw\<lparr>crw_ResponseWriter := rw_Flush (crw_ResponseWriter crw)\<rparr>
      else crw)"

definition Flush :: "codec \<Rightarrow> compressResponseWriter \<Rightarrow> compressResponseWriter \<times> unit result" where
  "Flush cdc crw =
     (if crw_err crw \<noteq> None then (crw, Returns ())
      else
        (case crw_z crw of
           ZNil \<Rightarrow> (flushUnderlying crw, Returns ())
         | ZNilPtr \<Rightarrow> (crw, Panics)
         | ZOpen zc \<Rightarrow>
             (let (crw1, e) = z_call cdc crw zc ZFlush;
                  crw2 = crw1\<lparr>crw_err := errorsWrap e ''Flushing compressResponseWriter failed''\<rparr>
              in (flushUnderlying crw2, Returns ()))))"

text \<open>
  \<^verbatim>\<open>crw.buf.WriteTo(crw.ResponseWriter)\<close>: nothing is written when the buffer is empty; the
  bytes written leave the buffer.
\<close>

definition buf_WriteTo :: "compressResponseWriter \<Rightarrow> compressResponseWriter \<times> error option" where
  "buf_WriteTo crw =
     (if crw_buf crw = [] then (crw, None)
      else
        let (rw', m, e) = rw_Write (crw_ResponseWriter crw) (crw_buf crw)
        in (crw\<lparr>crw_ResponseWriter := rw', crw_buf := drop m (crw_buf crw)\<rparr>, e))"

text \<open>
  In \<^verbatim>\<open>Close\<close> the flush of the underlying writer is deferred after the check of the
  sticky error: it runs last on each of the later paths, on a panic too.
\<close>

definition Close ::
  "codec \<Rightarrow> compressResponseWriter \<Rightarrow> compressResponseWriter \<times> error option result" where
  "Close cdc crw =
     (case crw_err crw of
        Some e \<Rightarrow> (crw, Returns (Some e))
      | None \<Rightarrow>
          (case crw_z crw of
             ZNil \<Rightarrow> (flushUnderlying crw, Returns None)
           | ZNilPtr \<Rightarrow> (flushUnderlying crw, Panics)
           | ZOpen zc \<Rightarrow>
               (let (crw1, e) = z_call cdc crw zc ZClose;
                    crw2 = crw1\<lparr>crw_err := errorsWrap e ''Closing compressResponseWriter failed''\<rparr>
                in if crw_err crw2 \<noteq> None then (flushUnderlying crw2, Returns (crw_err crw2))
                   else if crw_isBuffered crw2 then
                     (let crw3 = updHeader (\<lambda>h. Set h hdrContentLength
                                                  (Itoa (int (length (crw_buf crw2))))) crw2;
                          crw4 = crw3\<lparr>crw_ResponseWriter :=
                                        rw_WriteHeader (crw_ResponseWriter crw3) (crw_code crw3)\<rparr>;
                          (crw5, e5) = buf_WriteTo crw4;
                          crw6 = crw5\<lparr>crw_err := e5\<rparr>
                      in (flushUnderlying crw6, Returns (crw_err crw6)))
                   else (flushUnderlying crw2, Returns (crw_err crw2)))))"

section \<open>compress.go: New\<close>

text \<open>
  A handler is an opaque callable that uses the response writer it is given. It is
  modelled by the calls it makes: it ends by returning or by panicking, it can read and
  change the header map, commit the header, write (and go on according to the result) and
  flush. A panic of the writer inside a call ends the handler with that panic.
\<close>

datatype handler =
    Return
  | Panic
  | ReadHeader "header \<Rightarrow> handler"
  | ChangeHeader "header \<Rightarrow> header" handler
  | CallWriteHeader int handler
  | CallWrite bytes "nat \<times> error option \<Rightarrow> handler"
  | CallFlush handler

record request =
  req_Header :: header
  req_Method :: string
  req_URL :: string

text \<open>\<^verbatim>\<open>h.ServeHTTP(w, r)\<close> on the underlying writer; the flag tells a panic.\<close>

primrec serveDirect :: "handler \<Rightarrow> responseWriter \<Rightarrow> responseWriter \<times> bool" where
  "serveDirect Return = (\<lambda>rw. (rw, False))"
| "serveDirect Panic = (\<lambda>rw. (rw, True))"
| "serveDirect (ReadHeader k) = (\<lambda>rw. serveDirect (k (rw_header rw)) rw)"
| "serveDirect (ChangeHeader f h) = (\<lambda>rw. serveDirect h (rw\<lparr>rw_header := f (rw_header rw)\<rparr>))"
| "serveDirect (CallWriteHeader code h) = (\<lambda>rw. serveDirect h (rw_WriteHeader rw code))"
| "serveDirect (CallWrite p k) =
     (\<lambda>rw. let (rw', n, e) = rw_Write rw p in serveDirect (k (n, e)) rw')"
| "serveDirect (CallFlush h) =
     (\<lambda>rw. serveDirect h (if rw_flusher rw then rw_Flush rw else rw))"

text \<open>\<^verbatim>\<open>h.ServeHTTP(crw, r)\<close> on the compressing writer.\<close>

primrec serveCompress ::
  "codec \<Rightarrow> config \<Rightarrow> handler \<Rightarrow> compressResponseWriter \<Rightarrow> compressResponseWriter \<times> bool" where
  "serveCompress cdc cfg Return = (\<lambda>crw. (crw, False))"
| "serveCompress cdc cfg Panic = (\<lambda>crw. (crw, True))"
| "serveCompress cdc cfg (ReadHeader k) = (\<lambda>crw. serveCompress cdc cfg (k (Header crw)) crw)"
| "serveCompress cdc cfg (ChangeHeader f h) = (\<lambda>crw. serveCompress cdc cfg h (updHeader f crw))"
| "serveCompress cdc cfg (CallWriteHeader code h) =
     (\<lambda>crw. serveCompress cdc cfg h (WriteHeader cfg crw code))"
| "serveCompress cdc cfg (CallWrite p k) =
     (\<lambda>crw. case Write cdc cfg crw p of
              (crw', Panics) \<Rightarrow> (crw', True)
            | (crw', Returns r) \<Rightarrow> serveCompress cdc cfg (k r) crw')"
| "serveCompress cdc cfg (CallFlush h) =
     (\<lambda>crw. case Flush cdc crw of
              (crw', Panics) \<Rightarrow> (crw', True)
            | (crw', Returns u) \<Rightarrow> serveCompress cdc cfg h crw')"

text \<open>
  The outcome of serving one request: the underlying writer at the end, whether a panic
  leaves the handler function, and what was logged.
\<close>

record outcome =
  out_writer :: responseWriter
  out_panic :: bool
  out_log :: "error list"

definition New :: "codec \<Rightarrow> config \<Rightarrow> (request \<Rightarrow> handler) \<Rightarrow> request \<Rightarrow> responseWriter \<Rightarrow> outcome" where
  "New cdc cfg h r rw =
     (let comp = checkAcceptEncoding (req_Header r)
      in if comp = compNone
         then (let (rw', pn) = serveDirect (h r) rw
               in \<lparr>out_writer = rw', out_panic = pn, out_log = []\<rparr>)
         else
           (let crw = newCompressResponseWriter rw comp BestCompression;
                (crw1, pn) = serveCompress cdc cfg (h r) crw;
                (crw2, res) = Close cdc crw1
            in \<lparr>out_writer = crw_ResponseWriter crw2,
                out_panic = (pn \<or> res = Panics),
                out_log = (case res of Returns (Some e) \<Rightarrow> [e] | _ \<Rightarrow> [])\<rparr>))"

section \<open>Well-formed states of the sink\<close>

text \<open>
  \<open>opens\<close>: the codec and the level of the sink are such that \<open>getCompressor\<close>
  succeeds. \<open>New\<close> builds every sink with \<open>compGzip\<close> or \<open>compDeflate\<close> and
  \<^verbatim>\<open>flate.BestCompression\<close>.
\<close>

definition opens :: "compressResponseWriter \<Rightarrow> bool" where
  "opens crw =
     (crw_c crw \<noteq> compNone \<and> HuffmanOnly \<le> crw_level crw \<and> crw_level crw \<le> BestCompression)"

text \<open>
  \<open>crw_inv\<close>: what holds of the fields of a sink made by \<open>newCompressResponseWriter\<close>
  after any calls of its methods. Before the first \<^verbatim>\<open>WriteHeader\<close> nothing is set. After
  it, \<^verbatim>\<open>w\<close> is the underlying writer when \<^verbatim>\<open>z\<close> is nil and nothing is compressed, and
  otherwise \<^verbatim>\<open>w\<close> is \<^verbatim>\<open>z\<close>: an open compressor on the buffer or on the underlying
  writer according to \<^verbatim>\<open>isBuffered\<close>, or the result of a failed opening, with its error
  recorded.
\<close>

definition crw_inv :: "compressResponseWriter \<Rightarrow> bool" where
  "crw_inv crw =
     (if crw_wroteHeader crw then
        (case crw_z crw of
           ZNil \<Rightarrow>
             (crw_w crw = WResponseWriter \<and> \<not> crw_isBuffered crw) \<or>
             (crw_w crw = WCompressor \<and> crw_err crw \<noteq> None)
         | ZNilPtr \<Rightarrow> crw_w crw = WCompressor \<and> crw_err crw \<noteq> None
         | ZOpen zc \<Rightarrow>
             crw_w crw = WCompressor \<and>
             z_target zc = (if crw_isBuffered crw then ToBuf else ToResponseWriter) \<and>
             (z_err zc = None \<or> crw_err crw \<noteq> None))
      else crw_z crw = ZNil \<and> crw_w crw = WNil \<and> \<not> crw_isBuffered crw \<and> crw_err crw = None)"

text \<open>
  \<open>sinkOf\<close>: the sinks there are. \<open>New\<close> makes a sink for a codec other than
  \<open>compNone\<close> at \<^verbatim>\<open>flate.BestCompression\<close>, on whatever underlying writer the server
  hands it, and the handler and \<open>New\<close> then use it through its header map and its
  methods.
\<close>

inductive sinkOf :: "codec \<Rightarrow> config \<Rightarrow> compressResponseWriter \<Rightarrow> bool"
  for cdc :: codec and cfg :: config where
    sink_new: "cmp \<noteq> compNone \<Longrightarrow> sinkOf cdc cfg (newCompressResponseWriter rw cmp BestCompression)"
  | sink_header: "sinkOf cdc cfg crw \<Longrightarrow> sinkOf cdc cfg (updHeader f crw)"
  | sink_WriteHeader: "sinkOf cdc cfg crw \<Longrightarrow> sinkOf cdc cfg (WriteHeader cfg crw code)"
  | sink_Write: "sinkOf cdc cfg crw \<Longrightarrow> sinkOf cdc cfg (fst (Write cdc cfg crw p))"
  | sink_Flush: "sinkOf cdc cfg crw \<Longrightarrow> sinkOf cdc cfg (fst (Flush cdc crw))"
  | sink_Close: "sinkOf cdc cfg crw \<Longrightarrow> sinkOf cdc cfg (fst (Close cdc crw))"

section \<open>Concrete inputs\<close>

text \<open>A response header with a text type and a length of twenty digits, beyond 64 bits.\<close>

definition hugeLengthHeader :: header where
  "hugeLengthHeader =
     Map.empty(hdrContentLength \<mapsto> [''99999999999999999999''],
               hdrContentType \<mapsto> [''text/html''])"

text \<open>A response header of 300 bytes of HTML, and one that declares no length.\<close>

definition htmlHeader :: header where
  "htmlHeader = Map.empty(hdrContentLength \<mapsto> [''300''], hdrContentType \<mapsto> [''text/html''])"

definition malformedLengthHeader :: header where
  "malformedLengthHeader =
     Map.empty(hdrContentLength \<mapsto> [''12a''], hdrContentType \<mapsto> [''text/html''])"

definition largeHtmlHeader :: header where
  "largeHtmlHeader =
     Map.empty(hdrContentLength \<mapsto> [''20000''], hdrContentType \<mapsto> [''text/html''])"

text \<open>
  A codec for the examples: a mark before the first data, the data as they are, a mark at
  each flush and at the close.
\<close>

definition sampleCodec :: codec where
  "sampleCodec cmp lvl calls call =
     (case call of
        ZWrite p \<Rightarrow> (if calls = [] then ''H'' else []) @ p
      | ZFlush \<Rightarrow> ''F''
      | ZClose \<Rightarrow> ''T'')"

text \<open>An underlying writer that takes every write, and one whose next write fails.\<close>

definition okWriter :: "header \<Rightarrow> responseWriter" where
  "okWriter hdr = \<lparr>rw_header = hdr, rw_calls = [], rw_flusher = True, rw_results = []\<rparr>"

definition failingWriter :: "header \<Rightarrow> responseWriter" where
  "failingWriter hdr =
     \<lparr>rw_header = hdr, rw_calls = [], rw_flusher = True,
      rw_results = [Some (0, ErrIO ''broken pipe'')]\<rparr>"

text \<open>A sink after a failed write of an uncompressed response.\<close>

definition brokenSink :: compressResponseWriter where
  "brokenSink =
     (newCompressResponseWriter (okWriter Map.empty) compGzip BestCompression)
       \<lparr>crw_wroteHeader := True, crw_w := WResponseWriter,
        crw_err := Some (ErrWrap (ErrIO ''broken pipe'') ''Write in compressResponseWriter failed'')\<rparr>"

text \<open>A response header of 300 bytes of HTML on which the handler has set Vary.\<close>

definition varyHeader :: header where
  "varyHeader =
     Map.empty(hdrContentLength \<mapsto> [''300''], hdrContentType \<mapsto> [''text/html''],
               hdrVary \<mapsto> [''Origin''])"

text \<open>
  A handler that declares 300 bytes of HTML and writes five bytes, and requests that
  accept \<open>br\<close> only, or nothing.
\<close>

definition helloHandler :: "request \<Rightarrow> handler" where
  "helloHandler r =
     ChangeHeader (\<lambda>h. h(hdrContentType \<mapsto> [''text/html''], hdrContentLength \<mapsto> [''300'']))
       (CallWrite ''hello'' (\<lambda>res. Return))"

definition brRequest :: request where
  "brRequest =
     \<lparr>req_Header = Map.empty(hdrAcceptEncoding \<mapsto> [''br, identity'']),
      req_Method = ''GET'', req_URL = ''/''\<rparr>"

definition bareRequest :: request where
  "bareRequest = \<lparr>req_Header = Map.empty, req_Method = ''GET'', req_URL = ''/''\<rparr>"

section \<open>Negotiation\<close>

lemmas hdr_names = hdrAcceptEncoding_def hdrContentEncoding_def hdrContentEncodingGzip_def
  hdrContentEncodingDeflate_def hdrContentLength_def hdrContentType_def hdrTrailer_def hdrVary_def

lemmas atoi_defs = Atoi_def ParseInt_def ParseUint_def digitVal_def maxUint64_def

text \<open>\<^verbatim>\<open>Atoi\<close> and \<^verbatim>\<open>Itoa\<close> on some strings and numbers.\<close>

lemma Atoi_examples:
  "Atoi ''300'' = (300, None)"
  "Atoi ''-17'' = (- 17, None)"
  "Atoi ''+5'' = (5, None)"
  "Atoi '''' = (0, Some ErrSyntax)"
  "Atoi ''-'' = (0, Some ErrSyntax)"
  "Atoi ''12a'' = (0, Some ErrSyntax)"
  "Atoi '' 12'' = (0, Some ErrSyntax)"
  "Atoi ''9223372036854775807'' = (maxInt64, None)"
  "Atoi ''9223372036854775808'' = (maxInt64, Some ErrRange)"
  "Atoi ''-9223372036854775808'' = (minInt64, None)"
  "Atoi ''-9223372036854775809'' = (minInt64, Some ErrRange)"
  "Atoi ''99999999999999999999'' = (maxInt64, Some ErrRange)"
  by (simp_all add: atoi_defs maxInt64_def minInt64_def)

lemma Itoa_examples:
  "Itoa 0 = ''0''" "Itoa 7 = ''7''" "Itoa 300 = ''300''" "Itoa 16384 = ''16384''"
  "Itoa (- 42) = ''-42''"
  by (simp_all add: Itoa_def natDigits.simps digitChar_def)

text \<open>
  C3. Negotiation is meant to return the first piece of the Accept-Encoding value that,
  trimmed, is \<open>gzip\<close> or \<open>deflate\<close>, so that a header listing one of them never gives
  \<open>compNone\<close>. The loop compares each piece with all of \<open>compStrings\<close>, whose entry 0 is
  the name \<open>none\<close> of \<open>compNone\<close>: for the value \<open>none, gzip\<close> it returns \<open>compNone\<close>
  although \<open>gzip\<close> is listed. For \<open>br, gzip\<close> it returns \<open>compGzip\<close>.
\<close>

theorem checkAcceptEncoding_none_token:
  "checkAcceptEncoding (Map.empty(hdrAcceptEncoding \<mapsto> [''none, gzip''])) = compNone \<and>
   ''gzip'' \<in> set (map TrimSpace (Split ''none, gzip'' CHR '','')) \<and>
   checkAcceptEncoding (Map.empty(hdrAcceptEncoding \<mapsto> [''br, gzip''])) = compGzip"
  by (simp add: checkAcceptEncoding_def Get_def hdr_names TrimSpace_def spaceRunes_def
      trimLeft.simps compStrings_def compOfIndex_def)

section \<open>Eligibility\<close>

text \<open>
  C1, as the code has it. \<open>checkIsCompressable\<close> is true exactly when the status is 200,
  the value that \<^verbatim>\<open>strconv.Atoi\<close> returns for the Content-Length header is at least
  \<open>CompressMinLength\<close>, the Content-Type starts with one of the four prefixes, and
  \<^verbatim>\<open>Get\<close> returns the empty string for Trailer and for Content-Encoding. The length is 0
  for an absent header and for one that \<^verbatim>\<open>Atoi\<close> rejects with a syntax error, and a
  length of 0 is not eligible under a positive minimum. For a header that \<^verbatim>\<open>Atoi\<close> rejects
  as out of range the length is not 0: it is the largest or the smallest \<^verbatim>\<open>int\<close>,
  according to the sign.
\<close>

theorem checkIsCompressable_conditions:
  "checkIsCompressable cfg code hdr =
     (code = 200 \<and>
      CompressMinLength cfg \<le> fst (Atoi (Get hdr ''Content-Length'')) \<and>
      (HasPrefix (Get hdr ''Content-Type'') ''text/'' \<or>
       HasPrefix (Get hdr ''Content-Type'') ''image/svg'' \<or>
       HasPrefix (Get hdr ''Content-Type'') ''application/javascript'' \<or>
       HasPrefix (Get hdr ''Content-Type'') ''application/x-javascript'') \<and>
      Get hdr ''Trailer'' = [] \<and>
      Get hdr ''Content-Encoding'' = []) \<and>
   (hdr ''Content-Length'' = None \<or> snd (Atoi (Get hdr ''Content-Length'')) = Some ErrSyntax
      \<longrightarrow> getContentLength hdr = 0) \<and>
   (getContentLength hdr = 0 \<and> 0 < CompressMinLength cfg
      \<longrightarrow> \<not> checkIsCompressable cfg code hdr) \<and>
   (snd (Atoi (Get hdr ''Content-Length'')) = Some ErrRange
      \<longrightarrow> getContentLength hdr =
           (if hd (Get hdr ''Content-Length'') = CHR ''-'' then minInt64 else maxInt64))"
proof -
  have eq: "checkIsCompressable cfg code hdr =
     (code = 200 \<and>
      CompressMinLength cfg \<le> fst (Atoi (Get hdr ''Content-Length'')) \<and>
      (HasPrefix (Get hdr ''Content-Type'') ''text/'' \<or>
       HasPrefix (Get hdr ''Content-Type'') ''image/svg'' \<or>
       HasPrefix (Get hdr ''Content-Type'') ''application/javascript'' \<or>
       HasPrefix (Get hdr ''Content-Type'') ''application/x-javascript'') \<and>
      Get hdr ''Trailer'' = [] \<and>
      Get hdr ''Content-Encoding'' = [])"
    unfolding checkIsCompressable_def checkHeaderHas_def getContentLength_def
      isCompressableType_def StatusOK_def hdr_names Let_def
    by auto
  have absent: "hdr ''Content-Length'' = None \<Longrightarrow> getContentLength hdr = 0"
    by (simp add: getContentLength_def Get_def hdr_names Atoi_def ParseInt_def)
  have syn: "snd (Atoi s) = Some ErrSyntax \<Longrightarrow> fst (Atoi s) = 0" for s
    by (auto simp: Atoi_def ParseInt_def Let_def split: prod.splits if_splits)
  have rng: "snd (Atoi s) = Some ErrRange \<Longrightarrow>
      fst (Atoi s) = (if hd s = CHR ''-'' then minInt64 else maxInt64)" for s
    by (auto simp: Atoi_def ParseInt_def Let_def split: prod.splits if_splits)
  have zero: "getContentLength hdr = 0 \<and> 0 < CompressMinLength cfg
      \<Longrightarrow> \<not> checkIsCompressable cfg code hdr"
    by (simp add: checkIsCompressable_def)
  show ?thesis
    using eq absent syn [of "Get hdr ''Content-Length''"] rng [of "Get hdr ''Content-Length''"] zero
    unfolding getContentLength_def hdr_names by blast
qed

theorem checkIsCompressable_conditions_witness:
  "checkIsCompressable defaults 200 htmlHeader \<and>
   getContentLength (Map.empty(hdrContentType \<mapsto> [''text/html''])) = 0 \<and>
   \<not> checkIsCompressable defaults 200 (Map.empty(hdrContentType \<mapsto> [''text/html''])) \<and>
   snd (Atoi (Get malformedLengthHeader ''Content-Length'')) = Some ErrSyntax \<and>
   getContentLength malformedLengthHeader = 0 \<and>
   \<not> checkIsCompressable defaults 200 malformedLengthHeader \<and>
   snd (Atoi (Get hugeLengthHeader ''Content-Length'')) = Some ErrRange \<and>
   getContentLength hugeLengthHeader = maxInt64"
  using checkIsCompressable_conditions [of defaults 200 htmlHeader]
    checkIsCompressable_conditions [of defaults 200 "Map.empty(hdrContentType \<mapsto> [''text/html''])"]
    checkIsCompressable_conditions [of defaults 200 malformedLengthHeader]
    checkIsCompressable_conditions [of defaults 200 hugeLengthHeader]
  by (simp add: htmlHeader_def malformedLengthHeader_def hugeLengthHeader_def HasPrefix_def
      Get_def hdr_names atoi_defs defaults_def)

text \<open>
  C1 does not hold as stated: this Content-Length is unparseable (\<^verbatim>\<open>Atoi\<close> returns
  an error), yet it is not treated as 0, and the response is eligible.
\<close>

theorem hugeLength_counterexample:
  "snd (Atoi (Get hugeLengthHeader hdrContentLength)) = Some ErrRange \<and>
   getContentLength hugeLengthHeader = maxInt64 \<and>
   getContentLength hugeLengthHeader \<noteq> 0 \<and>
   checkIsCompressable defaults StatusOK hugeLengthHeader"
  by (simp add: hugeLengthHeader_def checkIsCompressable_def checkHeaderHas_def
      getContentLength_def isCompressableType_def HasPrefix_def Get_def hdr_names
      atoi_defs maxInt64_def defaults_def StatusOK_def)

section \<open>The well-formed states are kept by every method\<close>

lemma getCompressor_opens:
  "cmp \<noteq> compNone \<Longrightarrow> HuffmanOnly \<le> lvl \<Longrightarrow> lvl \<le> BestCompression \<Longrightarrow>
   getCompressor cmp tgt lvl = (ZOpen (openCompressor cmp tgt lvl), None)"
  by (cases cmp) (auto simp: getCompressor_def gzip_NewWriterLevel_def flate_NewWriter_def errorsWrap_def)

lemma getCompressor_fails:
  "\<not> (cmp \<noteq> compNone \<and> HuffmanOnly \<le> lvl \<and> lvl \<le> BestCompression) \<Longrightarrow>
   \<exists>e. getCompressor cmp tgt lvl = (if cmp = compNone then ZNil else ZNilPtr, Some e)"
  by (cases cmp) (auto simp: getCompressor_def gzip_NewWriterLevel_def flate_NewWriter_def errorsWrap_def)

lemma getCompressor_result:
  "getCompressor cmp tgt lvl = (zr, e) \<Longrightarrow>
   (case zr of ZOpen zc \<Rightarrow> e = None \<and> z_target zc = tgt \<and> z_err zc = None
    | ZNil \<Rightarrow> e \<noteq> None | ZNilPtr \<Rightarrow> e \<noteq> None)"
  by (cases cmp)
     (auto simp: getCompressor_def gzip_NewWriterLevel_def flate_NewWriter_def errorsWrap_def
        openCompressor_def split: if_splits)

lemma crw_inv_new: "crw_inv (newCompressResponseWriter rw cmp lvl)"
  by (simp add: crw_inv_def newCompressResponseWriter_def)


lemma crw_inv_WriteHeader: "crw_inv crw \<Longrightarrow> crw_inv (WriteHeader cfg crw code)"
proof (cases "crw_wroteHeader crw")
  case True
  assume "crw_inv crw"
  with True show ?thesis by (simp add: WriteHeader_def)
next
  case False
  assume inv: "crw_inv crw"
  obtain zr1 e1 where g1: "getCompressor (crw_c crw) ToBuf (crw_level crw) = (zr1, e1)"
    by (cases "getCompressor (crw_c crw) ToBuf (crw_level crw)")
  obtain zr2 e2 where g2: "getCompressor (crw_c crw) ToResponseWriter (crw_level crw) = (zr2, e2)"
    by (cases "getCompressor (crw_c crw) ToResponseWriter (crw_level crw)")
  from False inv g1 g2 getCompressor_result [OF g1] getCompressor_result [OF g2]
  show ?thesis
    by (auto simp: WriteHeader_def Let_def crw_inv_def updHeader_def buf_Grow_def Header_def
        targetOf_def split: zref.splits)
qed

lemma z_call_cases:
  "z_call cdc crw zc call = (crw', e) \<Longrightarrow>
   crw_wroteHeader crw' = crw_wroteHeader crw \<and> crw_w crw' = crw_w crw \<and>
   crw_isBuffered crw' = crw_isBuffered crw \<and> crw_err crw' = crw_err crw \<and>
   crw_c crw' = crw_c crw \<and> crw_level crw' = crw_level crw \<and> crw_code crw' = crw_code crw \<and>
   rw_flusher (crw_ResponseWriter crw') = rw_flusher (crw_ResponseWriter crw) \<and>
   rw_header (crw_ResponseWriter crw') = rw_header (crw_ResponseWriter crw) \<and>
   ((crw' = crw \<and> e \<noteq> None \<and> e = z_err zc) \<or>
    (\<exists>zc'. crw_z crw' = ZOpen zc' \<and> z_target zc' = z_target zc \<and> z_err zc' = e \<and> z_err zc = None))"
  by (auto simp: z_call_def Let_def rw_Write_def split: option.splits if_splits ztarget.splits
      prod.splits list.splits)

lemma crw_inv_Write: "crw_inv crw \<Longrightarrow> crw_inv (fst (Write cdc cfg crw p))"
proof -
  assume inv: "crw_inv crw"
  show ?thesis
  proof (cases "crw_err crw")
    case (Some e)
    with inv show ?thesis by (simp add: Write_def)
  next
    case None
    define crw1 where "crw1 = (if \<not> crw_wroteHeader crw then WriteHeader cfg crw StatusOK else crw)"
    have inv1: "crw_inv crw1"
      using inv by (simp add: crw1_def crw_inv_WriteHeader)
    show ?thesis
    proof (cases "w_Write cdc crw1 p")
      case wn: None
      with None inv1 show ?thesis by (simp add: Write_def crw1_def [symmetric] Let_def)
    next
      case (Some r)
      then obtain crw2 n e where r: "w_Write cdc crw1 p = Some (crw2, n, e)"
        by (cases r) auto
      have "crw_inv (crw2\<lparr>crw_err := errorsWrap e ''Write in compressResponseWriter failed''\<rparr>)"
        using r inv1
        by (auto simp: w_Write_def crw_inv_def rw_Write_def Let_def errorsWrap_def
            split: wref.splits zref.splits prod.splits list.splits option.splits if_splits
            dest!: z_call_cases)
      with None r show ?thesis by (simp add: Write_def crw1_def [symmetric] Let_def)
    qed
  qed
qed





lemma buf_WriteTo_fields:
  "buf_WriteTo x = (x', e) \<Longrightarrow>
   crw_err x' = crw_err x \<and> crw_wroteHeader x' = crw_wroteHeader x \<and> crw_z x' = crw_z x \<and>
   crw_w x' = crw_w x \<and> crw_isBuffered x' = crw_isBuffered x \<and>
   rw_header (crw_ResponseWriter x') = rw_header (crw_ResponseWriter x) \<and>
   rw_flusher (crw_ResponseWriter x') = rw_flusher (crw_ResponseWriter x)"
  by (auto simp: buf_WriteTo_def rw_Write_def Let_def split: if_splits prod.splits list.splits option.splits)


lemma Close_sticky: "crw_err crw = Some e \<Longrightarrow> Close cdc crw = (crw, Returns (Some e))"
  by (simp add: Close_def)

lemma Close_nil:
  "crw_err crw = None \<Longrightarrow> crw_z crw = ZNil \<Longrightarrow> Close cdc crw = (flushUnderlying crw, Returns None)"
  by (simp add: Close_def)

lemma Close_open_fail:
  "crw_err crw = None \<Longrightarrow> crw_z crw = ZOpen zc \<Longrightarrow> z_call cdc crw zc ZClose = (crw1, Some x) \<Longrightarrow>
   Close cdc crw =
     (flushUnderlying (crw1\<lparr>crw_err := Some (ErrWrap x ''Closing compressResponseWriter failed'')\<rparr>),
      Returns (Some (ErrWrap x ''Closing compressResponseWriter failed'')))"
  by (simp add: Close_def Let_def errorsWrap_def)

lemma err_upd_same: "crw_err x = e \<Longrightarrow> x\<lparr>crw_err := e\<rparr> = x"
  by auto

lemma Close_open_stream:
  assumes "crw_err crw = None" "crw_z crw = ZOpen zc" "z_call cdc crw zc ZClose = (crw1, None)"
    and "\<not> crw_isBuffered crw"
  shows "Close cdc crw = (flushUnderlying crw1, Returns None)"
proof -
  from z_call_cases [OF assms(3)] assms(1,4)
  have f: "crw_err crw1 = None" "\<not> crw_isBuffered crw1" by simp_all
  from f(1) have upd: "crw1\<lparr>crw_err := None\<rparr> = crw1" by (rule err_upd_same)
  from assms(1-3) f(2) show ?thesis
    by (simp add: Close_def Let_def errorsWrap_def upd f(1))
qed

lemma Close_open_buffered:
  assumes "crw_err crw = None" "crw_z crw = ZOpen zc" "z_call cdc crw zc ZClose = (crw1, None)"
    and "crw_isBuffered crw"
    and "buf_WriteTo
     (crw1\<lparr>crw_ResponseWriter :=
        rw_WriteHeader
          ((crw_ResponseWriter crw1)
             \<lparr>rw_header := Set (rw_header (crw_ResponseWriter crw1)) hdrContentLength
                              (Itoa (int (length (crw_buf crw1))))\<rparr>)
          (crw_code crw1)\<rparr>) = (crw5, e5)"
  shows "Close cdc crw = (flushUnderlying (crw5\<lparr>crw_err := e5\<rparr>), Returns e5)"
proof -
  from z_call_cases [OF assms(3)] assms(1,4)
  have f: "crw_err crw1 = None" "crw_isBuffered crw1" by simp_all
  from f(1) have upd: "crw1\<lparr>crw_err := None\<rparr> = crw1" by (rule err_upd_same)
  from assms(1-3,5) f(2) show ?thesis
    by (simp add: Close_def Let_def errorsWrap_def updHeader_def upd f(1))
qed


section \<open>Sticky errors\<close>

lemma flushUnderlying_err [simp]: "crw_err (flushUnderlying x) = crw_err x"
  by (simp add: flushUnderlying_def)





lemmas eval_defs = Get_def Set_def Del_def hdr_names atoi_defs HasPrefix_def StatusOK_def
  checkIsCompressable_def checkHeaderHas_def getContentLength_def isCompressableType_def
  defaults_def BestCompression_def HuffmanOnly_def

lemmas sink_defs = newCompressResponseWriter_def WriteHeader_def Write_def Flush_def Close_def
  w_Write_def z_call_def buf_WriteTo_def flushUnderlying_def updHeader_def Header_def buf_Grow_def
  targetOf_def getCompressor_def gzip_NewWriterLevel_def flate_NewWriter_def openCompressor_def
  errorsWrap_def rw_Write_def rw_WriteHeader_def rw_Flush_def Let_def

lemmas sample_defs = sampleCodec_def okWriter_def failingWriter_def brokenSink_def
  htmlHeader_def largeHtmlHeader_def


section \<open>The first WriteHeader\<close>

lemma fresh_fields:
  "crw_inv crw \<Longrightarrow> \<not> crw_wroteHeader crw \<Longrightarrow>
   crw_z crw = ZNil \<and> crw_w crw = WNil \<and> \<not> crw_isBuffered crw \<and> crw_err crw = None"
  by (simp add: crw_inv_def)

lemma WriteHeader_ineligible:
  assumes "crw_inv crw" "\<not> crw_wroteHeader crw" "\<not> checkIsCompressable cfg code (Header crw)"
  shows "WriteHeader cfg crw code =
     crw\<lparr>crw_wroteHeader := True, crw_w := WResponseWriter,
         crw_ResponseWriter := rw_WriteHeader (crw_ResponseWriter crw) code\<rparr>"
  using assms fresh_fields [OF assms(1,2)]
  by (simp add: WriteHeader_def Let_def Header_def)

lemma WriteHeader_buffered:
  assumes "crw_inv crw" "\<not> crw_wroteHeader crw" "checkIsCompressable cfg code (Header crw)"
    and "getContentLength (Header crw) < int (CompressMaxBuf cfg)"
    and "getCompressor (crw_c crw) ToBuf (crw_level crw) = (zr, e)"
  shows "WriteHeader cfg crw code =
     crw\<lparr>crw_wroteHeader := True,
         crw_bufcap := max (crw_bufcap crw) (length (crw_buf crw) + CompressMaxBuf cfg),
         crw_code := code, crw_isBuffered := True, crw_z := zr, crw_err := e,
         crw_w := WCompressor,
         crw_ResponseWriter := (crw_ResponseWriter crw)
           \<lparr>rw_header := Set (Set (Del (Header crw) hdrContentLength) hdrContentEncoding
                                 (String (crw_c crw))) hdrVary hdrAcceptEncoding\<rparr>\<rparr>"
  using assms
  by (simp add: WriteHeader_def Let_def Header_def updHeader_def buf_Grow_def targetOf_def)

lemma WriteHeader_streaming:
  assumes "crw_inv crw" "\<not> crw_wroteHeader crw" "checkIsCompressable cfg code (Header crw)"
    and "\<not> getContentLength (Header crw) < int (CompressMaxBuf cfg)"
    and "getCompressor (crw_c crw) ToResponseWriter (crw_level crw) = (zr, e)"
  shows "WriteHeader cfg crw code =
     crw\<lparr>crw_wroteHeader := True, crw_z := zr, crw_err := e, crw_w := WCompressor,
         crw_ResponseWriter := rw_WriteHeader ((crw_ResponseWriter crw)
           \<lparr>rw_header := Set (Set (Del (Header crw) hdrContentLength) hdrContentEncoding
                                 (String (crw_c crw))) hdrVary hdrAcceptEncoding\<rparr>) code\<rparr>"
  using assms fresh_fields [OF assms(1,2)]
  by (simp add: WriteHeader_def Let_def Header_def updHeader_def targetOf_def)

text \<open>
  C2. The first \<open>WriteHeader\<close> on a sink. If the response is not eligible, the call is
  passed to the underlying writer with the header as it is, and nothing compresses. If it
  is eligible and the declared length is below \<open>CompressMaxBuf\<close>, the sink is buffered:
  nothing is passed to the underlying writer yet, the status code is kept, the buffer has
  room for \<open>CompressMaxBuf\<close> bytes, and writes go to a compressor opened on the buffer.
  If it is eligible and the length is \<open>CompressMaxBuf\<close> or more, the compressor is opened
  on the underlying writer and the call is passed on at once, with the header as changed.
  In both compressing cases Content-Length is deleted from the header and
  Content-Encoding is the name of the codec, and no write has reached the underlying
  writer.
\<close>

theorem WriteHeader_first_commit:
  assumes "crw_inv crw" and "\<not> crw_wroteHeader crw" and "s' = WriteHeader cfg crw code"
  shows
    "crw_wroteHeader s' \<and>
     (\<not> checkIsCompressable cfg code (Header crw) \<longrightarrow>
        rw_calls (crw_ResponseWriter s') =
          rw_calls (crw_ResponseWriter crw) @ [EvWriteHeader code (Header crw)] \<and>
        Header s' = Header crw \<and>
        crw_z s' = ZNil \<and> crw_w s' = WResponseWriter \<and> \<not> crw_isBuffered s' \<and>
        crw_err s' = None \<and> crw_buf s' = crw_buf crw) \<and>
     (checkIsCompressable cfg code (Header crw) \<and>
      getContentLength (Header crw) < int (CompressMaxBuf cfg) \<longrightarrow>
        crw_isBuffered s' \<and> crw_code s' = code \<and>
        rw_calls (crw_ResponseWriter s') = rw_calls (crw_ResponseWriter crw) \<and>
        CompressMaxBuf cfg \<le> crw_bufcap s' \<and> crw_buf s' = crw_buf crw \<and>
        crw_w s' = WCompressor \<and>
        (opens crw \<longrightarrow>
           crw_z s' = ZOpen (openCompressor (crw_c crw) ToBuf (crw_level crw)) \<and>
           crw_err s' = None)) \<and>
     (checkIsCompressable cfg code (Header crw) \<and>
      \<not> getContentLength (Header crw) < int (CompressMaxBuf cfg) \<longrightarrow>
        \<not> crw_isBuffered s' \<and>
        rw_calls (crw_ResponseWriter s') =
          rw_calls (crw_ResponseWriter crw) @ [EvWriteHeader code (Header s')] \<and>
        crw_buf s' = crw_buf crw \<and> crw_w s' = WCompressor \<and>
        (opens crw \<longrightarrow>
           crw_z s' = ZOpen (openCompressor (crw_c crw) ToResponseWriter (crw_level crw)) \<and>
           crw_err s' = None)) \<and>
     (checkIsCompressable cfg code (Header crw) \<longrightarrow>
        Header s' hdrContentLength = None \<and>
        Get (Header s') hdrContentLength = [] \<and>
        Header s' hdrContentEncoding = Some [String (crw_c crw)] \<and>
        Get (Header s') hdrContentEncoding = String (crw_c crw))"
proof (cases "checkIsCompressable cfg code (Header crw)")
  case False
  from WriteHeader_ineligible [OF assms(1,2) False] fresh_fields [OF assms(1,2)] False
  show ?thesis
    by (simp add: assms(3) rw_WriteHeader_def Header_def)
next
  case True
  show ?thesis
  proof (cases "getContentLength (Header crw) < int (CompressMaxBuf cfg)")
    case small: True
    obtain zr e where g: "getCompressor (crw_c crw) ToBuf (crw_level crw) = (zr, e)"
      by (cases "getCompressor (crw_c crw) ToBuf (crw_level crw)")
    have o: "zr = ZOpen (openCompressor (crw_c crw) ToBuf (crw_level crw)) \<and> e = None"
      if "opens crw"
      using that g by (simp add: opens_def getCompressor_opens)
    have cap: "CompressMaxBuf cfg
        \<le> max (crw_bufcap crw) (length (crw_buf crw) + CompressMaxBuf cfg)"
      by linarith
    from WriteHeader_buffered [OF assms(1,2) True small g] True small o cap
    show ?thesis
      by (simp add: assms(3) Header_def Set_def Del_def Get_def hdr_names)
  next
    case large: False
    obtain zr e where g: "getCompressor (crw_c crw) ToResponseWriter (crw_level crw) = (zr, e)"
      by (cases "getCompressor (crw_c crw) ToResponseWriter (crw_level crw)")
    have o: "zr = ZOpen (openCompressor (crw_c crw) ToResponseWriter (crw_level crw)) \<and> e = None"
      if "opens crw"
      using that g by (simp add: opens_def getCompressor_opens)
    from WriteHeader_streaming [OF assms(1,2) True large g] True large o
      fresh_fields [OF assms(1,2)]
    show ?thesis
      by (simp add: assms(3) Header_def Set_def Del_def Get_def hdr_names rw_WriteHeader_def)
  qed
qed

lemma new_fields [simp]:
  "\<not> crw_wroteHeader (newCompressResponseWriter rw cmp lvl)"
  "Header (newCompressResponseWriter rw cmp lvl) = rw_header rw"
  "crw_c (newCompressResponseWriter rw cmp lvl) = cmp"
  "crw_level (newCompressResponseWriter rw cmp lvl) = lvl"
  "crw_ResponseWriter (newCompressResponseWriter rw cmp lvl) = rw"
  "crw_buf (newCompressResponseWriter rw cmp lvl) = []"
  by (simp_all add: newCompressResponseWriter_def Header_def)

lemma opens_new:
  "cmp \<noteq> compNone \<Longrightarrow> opens (newCompressResponseWriter rw cmp BestCompression)"
  by (simp add: opens_def BestCompression_def HuffmanOnly_def)

lemma eligible_samples:
  "\<not> checkIsCompressable defaults 200 Map.empty"
  "checkIsCompressable defaults 200 htmlHeader"
  "checkIsCompressable defaults 200 largeHtmlHeader"
  "checkIsCompressable defaults 200 varyHeader"
  "getContentLength htmlHeader < int (CompressMaxBuf defaults)"
  "getContentLength varyHeader < int (CompressMaxBuf defaults)"
  "\<not> getContentLength largeHtmlHeader < int (CompressMaxBuf defaults)"
  by (simp_all add: htmlHeader_def largeHtmlHeader_def varyHeader_def checkIsCompressable_def
      checkHeaderHas_def getContentLength_def isCompressableType_def HasPrefix_def Get_def
      hdr_names atoi_defs defaults_def StatusOK_def)

theorem WriteHeader_first_commit_witness:
  "rw_calls (crw_ResponseWriter (WriteHeader defaults
      (newCompressResponseWriter (okWriter Map.empty) compGzip BestCompression) 200)) =
     [EvWriteHeader 200 Map.empty] \<and>
   crw_z (WriteHeader defaults
      (newCompressResponseWriter (okWriter Map.empty) compGzip BestCompression) 200) = ZNil \<and>
   crw_isBuffered (WriteHeader defaults
      (newCompressResponseWriter (okWriter htmlHeader) compGzip BestCompression) 200) \<and>
   rw_calls (crw_ResponseWriter (WriteHeader defaults
      (newCompressResponseWriter (okWriter htmlHeader) compGzip BestCompression) 200)) = [] \<and>
   crw_z (WriteHeader defaults
      (newCompressResponseWriter (okWriter htmlHeader) compGzip BestCompression) 200) =
     ZOpen (openCompressor compGzip ToBuf BestCompression) \<and>
   Get (Header (WriteHeader defaults
      (newCompressResponseWriter (okWriter htmlHeader) compGzip BestCompression) 200))
      hdrContentEncoding = ''gzip'' \<and>
   \<not> crw_isBuffered (WriteHeader defaults
      (newCompressResponseWriter (okWriter largeHtmlHeader) compDeflate BestCompression) 200) \<and>
   crw_z (WriteHeader defaults
      (newCompressResponseWriter (okWriter largeHtmlHeader) compDeflate BestCompression) 200) =
     ZOpen (openCompressor compDeflate ToResponseWriter BestCompression) \<and>
   Get (Header (WriteHeader defaults
      (newCompressResponseWriter (okWriter largeHtmlHeader) compDeflate BestCompression) 200))
      hdrContentLength = []"
  using
    WriteHeader_first_commit [OF crw_inv_new [of "okWriter Map.empty" compGzip BestCompression]
      new_fields(1) refl, where cfg = defaults and code = 200]
    WriteHeader_first_commit [OF crw_inv_new [of "okWriter htmlHeader" compGzip BestCompression]
      new_fields(1) refl, where cfg = defaults and code = 200]
    WriteHeader_first_commit [OF crw_inv_new [of "okWriter largeHtmlHeader" compDeflate BestCompression]
      new_fields(1) refl, where cfg = defaults and code = 200]
    eligible_samples
  by (simp add: opens_new okWriter_def String_def compStrings_def hdr_names)




text \<open>
  C6, as the code has it. When the response is eligible, the first \<open>WriteHeader\<close> sets
  Vary to the one value Accept-Encoding, whatever the handler had set; otherwise it leaves
  Vary as it is.
\<close>

theorem WriteHeader_sets_Vary:
  assumes "crw_inv crw" and "\<not> crw_wroteHeader crw" and "s' = WriteHeader cfg crw code"
  shows
    "(checkIsCompressable cfg code (Header crw) \<longrightarrow>
        Header s' hdrVary = Some [hdrAcceptEncoding] \<and>
        Get (Header s') hdrVary = hdrAcceptEncoding) \<and>
     (\<not> checkIsCompressable cfg code (Header crw) \<longrightarrow> Header s' hdrVary = Header crw hdrVary)"
proof (cases "checkIsCompressable cfg code (Header crw)")
  case False
  from WriteHeader_ineligible [OF assms(1,2) False] False show ?thesis
    by (simp add: assms(3) rw_WriteHeader_def Header_def)
next
  case True
  show ?thesis
  proof (cases "getContentLength (Header crw) < int (CompressMaxBuf cfg)")
    case small: True
    obtain zr e where g: "getCompressor (crw_c crw) ToBuf (crw_level crw) = (zr, e)"
      by (cases "getCompressor (crw_c crw) ToBuf (crw_level crw)")
    from WriteHeader_buffered [OF assms(1,2) True small g] True show ?thesis
      by (simp add: assms(3) Header_def Set_def Del_def Get_def)
  next
    case large: False
    obtain zr e where g: "getCompressor (crw_c crw) ToResponseWriter (crw_level crw) = (zr, e)"
      by (cases "getCompressor (crw_c crw) ToResponseWriter (crw_level crw)")
    from WriteHeader_streaming [OF assms(1,2) True large g] True show ?thesis
      by (simp add: assms(3) Header_def Set_def Del_def Get_def rw_WriteHeader_def)
  qed
qed

theorem WriteHeader_sets_Vary_witness:
  "Header (WriteHeader defaults
      (newCompressResponseWriter (okWriter varyHeader) compGzip BestCompression) 200) hdrVary =
     Some [''Accept-Encoding''] \<and>
   Header (WriteHeader defaults
      (newCompressResponseWriter (okWriter varyHeader) compGzip BestCompression) 404) hdrVary =
     Some [''Origin'']"
proof -
  have ne: "\<not> checkIsCompressable defaults 404 varyHeader"
    by (simp add: checkIsCompressable_def StatusOK_def)
  from WriteHeader_sets_Vary [OF crw_inv_new [of "okWriter varyHeader" compGzip BestCompression]
      new_fields(1) refl, where cfg = defaults and code = 200]
    WriteHeader_sets_Vary [OF crw_inv_new [of "okWriter varyHeader" compGzip BestCompression]
      new_fields(1) refl, where cfg = defaults and code = 404]
    eligible_samples ne
  show ?thesis
    by (simp add: okWriter_def hdr_names varyHeader_def)
qed

text \<open>
  C6 does not hold as stated: the handler's Vary value \<open>Origin\<close> is gone after the
  commit of an eligible response.
\<close>

theorem Vary_replaced_counterexample:
  "Header (newCompressResponseWriter (okWriter varyHeader) compGzip BestCompression) hdrVary =
     Some [''Origin''] \<and>
   checkIsCompressable defaults 200 varyHeader \<and>
   Header (WriteHeader defaults
      (newCompressResponseWriter (okWriter varyHeader) compGzip BestCompression) 200) hdrVary =
     Some [''Accept-Encoding'']"
  by (simp add: eligible_samples)
     (simp add: sink_defs eval_defs sample_defs varyHeader_def)

section \<open>Write\<close>

lemma WriteHeader_wroteHeader [simp]: "crw_wroteHeader (WriteHeader cfg crw code)"
  by (simp add: WriteHeader_def Let_def updHeader_def buf_Grow_def split: prod.splits)









text \<open>
  Where the compressor of an eligible response cannot be opened, a \<open>Write\<close> that commits
  the header itself goes on to write through the nil \<^verbatim>\<open>crw.w\<close> and panics.
\<close>

lemma Write_panics_unopenable:
  assumes "crw_inv crw" and "\<not> crw_wroteHeader crw"
    and "checkIsCompressable cfg StatusOK (Header crw)" and "\<not> opens crw"
  shows "snd (Write cdc cfg crw p) = Panics"
proof -
  from assms(4) have no:
    "\<not> (crw_c crw \<noteq> compNone \<and> HuffmanOnly \<le> crw_level crw \<and> crw_level crw \<le> BestCompression)"
    by (simp add: opens_def)
  have "crw_w (WriteHeader cfg crw StatusOK) = WCompressor \<and>
        (crw_z (WriteHeader cfg crw StatusOK) = ZNil \<or> crw_z (WriteHeader cfg crw StatusOK) = ZNilPtr)"
  proof (cases "getContentLength (Header crw) < int (CompressMaxBuf cfg)")
    case True
    from getCompressor_fails [OF no, of ToBuf] obtain e where
      g: "getCompressor (crw_c crw) ToBuf (crw_level crw) =
            (if crw_c crw = compNone then ZNil else ZNilPtr, Some e)"
      by blast
    from WriteHeader_buffered [OF assms(1,2,3) True g] show ?thesis by simp
  next
    case False
    from getCompressor_fails [OF no, of ToResponseWriter] obtain e where
      g: "getCompressor (crw_c crw) ToResponseWriter (crw_level crw) =
            (if crw_c crw = compNone then ZNil else ZNilPtr, Some e)"
      by blast
    from WriteHeader_streaming [OF assms(1,2,3) False g] show ?thesis by simp
  qed
  then have "w_Write cdc (WriteHeader cfg crw StatusOK) p = None"
    by (auto simp: w_Write_def)
  with assms(2) fresh_fields [OF assms(1,2)] show ?thesis
    by (simp add: Write_def)
qed





lemma sinkOf_serveCompress:
  "sinkOf cdc cfg crw \<Longrightarrow> sinkOf cdc cfg (fst (serveCompress cdc cfg hnd crw))"
proof (induction hnd arbitrary: crw)
  case Return
  then show ?case by simp
next
  case Panic
  then show ?case by simp
next
  case (ReadHeader k)
  then show ?case by simp
next
  case (ChangeHeader f hnd)
  then show ?case by (simp add: sink_header)
next
  case (CallWriteHeader code hnd)
  then show ?case by (simp add: sink_WriteHeader)
next
  case (CallWrite p k)
  from CallWrite.prems have w: "sinkOf cdc cfg (fst (Write cdc cfg crw p))"
    by (rule sink_Write)
  obtain crw' res where r: "Write cdc cfg crw p = (crw', res)"
    by (cases "Write cdc cfg crw p")
  with w have s': "sinkOf cdc cfg crw'" by simp
  show ?case
  proof (cases res)
    case (Returns x)
    with r s' CallWrite.IH show ?thesis by simp
  next
    case Panics
    with r s' show ?thesis by simp
  qed
next
  case (CallFlush hnd)
  from CallFlush.prems have w: "sinkOf cdc cfg (fst (Flush cdc crw))"
    by (rule sink_Flush)
  obtain crw' res where r: "Flush cdc crw = (crw', res)"
    by (cases "Flush cdc crw")
  with w have s': "sinkOf cdc cfg crw'" by simp
  show ?case
  proof (cases res)
    case (Returns x)
    with r s' CallFlush.IH show ?thesis by simp
  next
    case Panics
    with r s' show ?thesis by simp
  qed
qed



section \<open>Close\<close>

lemma buffered_compressor:
  "crw_inv crw \<Longrightarrow> crw_err crw = None \<Longrightarrow> crw_isBuffered crw \<Longrightarrow>
   \<exists>zc. crw_z crw = ZOpen zc \<and> z_target zc = ToBuf \<and> z_err zc = None \<and> crw_wroteHeader crw"
  by (cases "crw_z crw") (auto simp: crw_inv_def split: if_splits)

text \<open>
  C4. \<open>Close\<close> on a buffered sink with no error recorded. The compressor is closed, and
  what it emits goes to the buffer; Content-Length is set to the number of bytes the
  buffer then holds; the status code kept at the commit is passed to the underlying writer
  with that header; then the buffer is written to the underlying writer in one write
  (none when it is empty), and last the underlying writer is flushed. The error of the
  write, as it is, is recorded and returned.
\<close>

theorem Close_buffered:
  assumes "crw_inv crw" and "crw_err crw = None" and "crw_isBuffered crw"
    and "s' = fst (Close cdc crw)" and "res = snd (Close cdc crw)"
  shows
    "\<exists>zc. crw_z crw = ZOpen zc \<and>
       (let b = crw_buf crw @ cdc (z_comp zc) (z_level zc) (z_calls zc) ZClose;
            hdr' = Set (Header crw) hdrContentLength (Itoa (int (length b)))
        in crw_z s' = ZOpen (zc\<lparr>z_calls := z_calls zc @ [ZClose]\<rparr>) \<and>
           Header s' = hdr' \<and>
           Get hdr' hdrContentLength = Itoa (int (length b)) \<and>
           rw_calls (crw_ResponseWriter s') =
             rw_calls (crw_ResponseWriter crw) @ [EvWriteHeader (crw_code crw) hdr'] @
             (if b = [] then [] else [EvWrite b]) @
             (if rw_flusher (crw_ResponseWriter crw) then [EvFlush] else []) \<and>
           crw_err s' = (if b = [] then None else snd (snd (rw_Write (crw_ResponseWriter crw) b))) \<and>
           res = Returns (crw_err s'))"
proof -
  from buffered_compressor [OF assms(1-3)] obtain zc where
    z: "crw_z crw = ZOpen zc" and t: "z_target zc = ToBuf" and ze: "z_err zc = None"
    by blast
  define out where "out = cdc (z_comp zc) (z_level zc) (z_calls zc) ZClose"
  define crw1 where
    "crw1 = crw\<lparr>crw_z := ZOpen (zc\<lparr>z_calls := z_calls zc @ [ZClose]\<rparr>), crw_buf := crw_buf crw @ out\<rparr>"
  have zc: "z_call cdc crw zc ZClose = (crw1, None)"
    using t ze by (simp add: z_call_def Let_def crw1_def out_def)
  define crw4 where
    "crw4 = crw1\<lparr>crw_ResponseWriter :=
        rw_WriteHeader
          ((crw_ResponseWriter crw1)
             \<lparr>rw_header := Set (rw_header (crw_ResponseWriter crw1)) hdrContentLength
                              (Itoa (int (length (crw_buf crw1))))\<rparr>)
          (crw_code crw1)\<rparr>"
  obtain crw5 e5 where b: "buf_WriteTo crw4 = (crw5, e5)"
    by (cases "buf_WriteTo crw4")
  from Close_open_buffered [OF assms(2) z zc assms(3) b [unfolded crw4_def]]
  have cl: "Close cdc crw = (flushUnderlying (crw5\<lparr>crw_err := e5\<rparr>), Returns e5)" .
  from b have obs:
    "crw_z crw5 = ZOpen (zc\<lparr>z_calls := z_calls zc @ [ZClose]\<rparr>) \<and>
     rw_header (crw_ResponseWriter crw5) =
       Set (Header crw) hdrContentLength (Itoa (int (length (crw_buf crw @ out)))) \<and>
     rw_flusher (crw_ResponseWriter crw5) = rw_flusher (crw_ResponseWriter crw) \<and>
     rw_calls (crw_ResponseWriter crw5) =
       rw_calls (crw_ResponseWriter crw) @
       [EvWriteHeader (crw_code crw)
          (Set (Header crw) hdrContentLength (Itoa (int (length (crw_buf crw @ out)))))] @
       (if crw_buf crw @ out = [] then [] else [EvWrite (crw_buf crw @ out)]) \<and>
     e5 = (if crw_buf crw @ out = [] then None
           else snd (snd (rw_Write (crw_ResponseWriter crw) (crw_buf crw @ out))))"
    by (auto simp: buf_WriteTo_def crw4_def crw1_def rw_WriteHeader_def rw_Write_def Let_def Header_def
        split: if_splits list.splits option.splits prod.splits)
  have g: "Get (Set h hdrContentLength v) hdrContentLength = v" for h v
    by (simp add: Get_def Set_def)
  from obs cl z show ?thesis
    by (simp add: assms(4,5) Let_def out_def [symmetric] flushUnderlying_def rw_Flush_def Header_def g)
qed

theorem Close_buffered_witness:
  "rw_calls (crw_ResponseWriter (fst (Close sampleCodec (fst (Write sampleCodec defaults
      (newCompressResponseWriter (okWriter htmlHeader) compGzip BestCompression) ''abc''))))) =
     [EvWriteHeader 200
        (htmlHeader(hdrContentLength \<mapsto> [''5''], hdrContentEncoding \<mapsto> [''gzip''],
                    hdrVary \<mapsto> [''Accept-Encoding''])),
      EvWrite ''HabcT'', EvFlush] \<and>
   snd (Close sampleCodec (fst (Write sampleCodec defaults
      (newCompressResponseWriter (okWriter htmlHeader) compGzip BestCompression) ''abc''))) =
     Returns None \<and>
   snd (Close sampleCodec (fst (Write sampleCodec defaults
      (newCompressResponseWriter (failingWriter htmlHeader) compGzip BestCompression) ''abc''))) =
     Returns (Some (ErrIO ''broken pipe''))"
proof -
  define zc where "zc = (openCompressor compGzip ToBuf BestCompression)\<lparr>z_calls := [ZWrite ''abc'']\<rparr>"
  define sb where "sb = fst (Write sampleCodec defaults
      (newCompressResponseWriter (okWriter htmlHeader) compGzip BestCompression) ''abc'')"
  define sf where "sf = fst (Write sampleCodec defaults
      (newCompressResponseWriter (failingWriter htmlHeader) compGzip BestCompression) ''abc'')"
  have inv: "crw_inv sb" "crw_inv sf"
    by (simp_all add: sb_def sf_def crw_inv_Write crw_inv_new)
  have fb: "crw_err sb = None" "crw_isBuffered sb" "crw_z sb = ZOpen zc" "crw_buf sb = ''Habc''"
    "crw_code sb = 200" "rw_calls (crw_ResponseWriter sb) = []" "rw_flusher (crw_ResponseWriter sb)"
    "rw_results (crw_ResponseWriter sb) = []"
    "Header sb = htmlHeader(hdrContentLength := None, hdrContentEncoding \<mapsto> [''gzip''],
                    hdrVary \<mapsto> [''Accept-Encoding''])"
    by (simp_all add: sb_def zc_def sink_defs eval_defs sample_defs String_def compStrings_def)
  have ff: "crw_err sf = None" "crw_isBuffered sf" "crw_z sf = ZOpen zc" "crw_buf sf = ''Habc''"
    "rw_results (crw_ResponseWriter sf) = [Some (0, ErrIO ''broken pipe'')]"
    by (simp_all add: sf_def zc_def sink_defs eval_defs sample_defs String_def compStrings_def)
  have codec: "sampleCodec (z_comp zc) (z_level zc) (z_calls zc) ZClose = ''T''"
    by (simp add: sampleCodec_def)
  have five: "Itoa 5 = ''5''"
    by (simp add: Itoa_def natDigits.simps digitChar_def)
  have upd: "Set (htmlHeader(hdrContentLength := None, hdrContentEncoding \<mapsto> [''gzip''],
                    hdrVary \<mapsto> [''Accept-Encoding''])) hdrContentLength ''5'' =
      htmlHeader(hdrContentLength \<mapsto> [''5''], hdrContentEncoding \<mapsto> [''gzip''],
                    hdrVary \<mapsto> [''Accept-Encoding''])"
    by (auto simp: Set_def hdr_names)
  from Close_buffered [OF inv(1) fb(1,2) refl refl, where cdc = sampleCodec] fb codec five upd
  have 1: "rw_calls (crw_ResponseWriter (fst (Close sampleCodec sb))) =
     [EvWriteHeader 200
        (htmlHeader(hdrContentLength \<mapsto> [''5''], hdrContentEncoding \<mapsto> [''gzip''],
                    hdrVary \<mapsto> [''Accept-Encoding''])),
      EvWrite ''HabcT'', EvFlush]"
    "snd (Close sampleCodec sb) = Returns None"
    by (simp_all add: Let_def rw_Write_def)
  from Close_buffered [OF inv(2) ff(1,2) refl refl, where cdc = sampleCodec] ff codec
  have 2: "snd (Close sampleCodec sf) = Returns (Some (ErrIO ''broken pipe''))"
    by (simp add: Let_def rw_Write_def)
  from 1 2 show ?thesis
    unfolding sb_def sf_def by simp
qed

lemma z_call_calls:
  "z_call cdc crw zc call = (crw1, e) \<Longrightarrow>
   \<exists>evs. rw_calls (crw_ResponseWriter crw1) = rw_calls (crw_ResponseWriter crw) @ evs"
  by (auto simp: z_call_def Let_def rw_Write_def
      split: option.splits if_splits ztarget.splits prod.splits list.splits)

lemma buf_WriteTo_calls:
  "buf_WriteTo x = (x', e) \<Longrightarrow>
   \<exists>evs. rw_calls (crw_ResponseWriter x') = rw_calls (crw_ResponseWriter x) @ evs"
  by (auto simp: buf_WriteTo_def Let_def rw_Write_def
      split: option.splits if_splits prod.splits list.splits)

lemma flushUnderlying_calls:
  "rw_flusher (crw_ResponseWriter x) \<Longrightarrow>
   rw_calls (crw_ResponseWriter (flushUnderlying x)) = rw_calls (crw_ResponseWriter x) @ [EvFlush]"
  by (simp add: flushUnderlying_def rw_Flush_def)

text \<open>
  C8, as the code has it. \<open>Close\<close> checks the recorded error first: with an error
  recorded it returns at once and leaves the sink, the underlying writer included, as it
  is. Only after that check is the flush deferred: on every later path (nothing was
  compressed, the close of the compressor fails, the buffer is written out, the stream
  ends) the last call the underlying writer receives is a flush, when it is a flusher.
\<close>

theorem Close_flushes_after_check:
  assumes "s' = fst (Close cdc crw)"
  shows
    "(crw_err crw = None \<and> rw_flusher (crw_ResponseWriter crw) \<longrightarrow>
        (\<exists>evs. rw_calls (crw_ResponseWriter s') =
                 rw_calls (crw_ResponseWriter crw) @ evs @ [EvFlush])) \<and>
     (crw_err crw = None \<and> crw_z crw = ZNil \<longrightarrow>
        rw_calls (crw_ResponseWriter s') =
          rw_calls (crw_ResponseWriter crw) @
          (if rw_flusher (crw_ResponseWriter crw) then [EvFlush] else []) \<and>
        snd (Close cdc crw) = Returns None) \<and>
     (crw_err crw \<noteq> None \<longrightarrow> s' = crw \<and> snd (Close cdc crw) = Returns (crw_err crw))"
proof -
  have sticky: "crw_err crw \<noteq> None \<longrightarrow> s' = crw \<and> snd (Close cdc crw) = Returns (crw_err crw)"
    by (auto simp: assms Close_def)
  have nil: "crw_err crw = None \<and> crw_z crw = ZNil \<longrightarrow>
        rw_calls (crw_ResponseWriter s') =
          rw_calls (crw_ResponseWriter crw) @
          (if rw_flusher (crw_ResponseWriter crw) then [EvFlush] else []) \<and>
        snd (Close cdc crw) = Returns None"
    by (auto simp: assms Close_def flushUnderlying_def rw_Flush_def)
  have flush: "\<exists>evs. rw_calls (crw_ResponseWriter s') =
                 rw_calls (crw_ResponseWriter crw) @ evs @ [EvFlush]"
    if e: "crw_err crw = None" and fl: "rw_flusher (crw_ResponseWriter crw)"
  proof (cases "crw_z crw")
    case ZNil
    with e fl show ?thesis
      by (simp add: assms Close_def flushUnderlying_calls)
  next
    case ZNilPtr
    with e fl show ?thesis
      by (simp add: assms Close_def flushUnderlying_calls)
  next
    case (ZOpen zc)
    obtain crw1 e1 where zc: "z_call cdc crw zc ZClose = (crw1, e1)"
      by (cases "z_call cdc crw zc ZClose")
    from z_call_calls [OF zc] obtain evs1 where
      c1: "rw_calls (crw_ResponseWriter crw1) = rw_calls (crw_ResponseWriter crw) @ evs1"
      by blast
    from z_call_cases [OF zc] fl have fl1: "rw_flusher (crw_ResponseWriter crw1)"
      by simp
    show ?thesis
    proof (cases e1)
      case (Some x)
      from Close_open_fail [OF e ZOpen zc [unfolded Some]] c1 fl1 show ?thesis
        by (simp add: assms flushUnderlying_calls)
    next
      case None
      show ?thesis
      proof (cases "crw_isBuffered crw")
        case False
        from Close_open_stream [OF e ZOpen zc [unfolded None] False] c1 fl1 show ?thesis
          by (simp add: assms flushUnderlying_calls)
      next
        case True
        define crw4 where
          "crw4 = crw1\<lparr>crw_ResponseWriter :=
             rw_WriteHeader
               ((crw_ResponseWriter crw1)
                  \<lparr>rw_header := Set (rw_header (crw_ResponseWriter crw1)) hdrContentLength
                                   (Itoa (int (length (crw_buf crw1))))\<rparr>)
               (crw_code crw1)\<rparr>"
        obtain crw5 e5 where b: "buf_WriteTo crw4 = (crw5, e5)"
          by (cases "buf_WriteTo crw4")
        from buf_WriteTo_calls [OF b] obtain evs2 where
          c5: "rw_calls (crw_ResponseWriter crw5) = rw_calls (crw_ResponseWriter crw4) @ evs2"
          by blast
        from buf_WriteTo_fields [OF b] fl1 have fl5: "rw_flusher (crw_ResponseWriter crw5)"
          by (simp add: crw4_def rw_WriteHeader_def)
        have c4: "rw_calls (crw_ResponseWriter crw4) =
            rw_calls (crw_ResponseWriter crw) @ evs1 @
            [EvWriteHeader (crw_code crw1)
               (Set (rw_header (crw_ResponseWriter crw1)) hdrContentLength
                  (Itoa (int (length (crw_buf crw1)))))]"
          by (simp add: crw4_def rw_WriteHeader_def c1)
        from Close_open_buffered [OF e ZOpen zc [unfolded None] True b [unfolded crw4_def]]
          c5 c4 fl5
        show ?thesis
          by (simp add: assms flushUnderlying_calls)
      qed
    qed
  qed
  from sticky nil flush show ?thesis
    by blast
qed

theorem Close_flushes_after_check_witness:
  "last (rw_calls (crw_ResponseWriter (fst (Close sampleCodec (WriteHeader defaults
      (newCompressResponseWriter (failingWriter largeHtmlHeader) compGzip BestCompression) 200))))) =
     EvFlush \<and>
   rw_calls (crw_ResponseWriter (fst (Close sampleCodec
      (newCompressResponseWriter (okWriter htmlHeader) compGzip BestCompression)))) = [EvFlush] \<and>
   fst (Close sampleCodec brokenSink) = brokenSink \<and>
   crw_err brokenSink \<noteq> None"
proof -
  define s4 where "s4 = WriteHeader defaults
      (newCompressResponseWriter (failingWriter largeHtmlHeader) compGzip BestCompression) 200"
  define a where "a = newCompressResponseWriter (okWriter htmlHeader) compGzip BestCompression"
  have f4: "crw_err s4 = None" "rw_flusher (crw_ResponseWriter s4)"
    by (simp_all add: s4_def sink_defs eval_defs sample_defs)
  have fa: "crw_err a = None" "crw_z a = ZNil" "rw_flusher (crw_ResponseWriter a)"
    "rw_calls (crw_ResponseWriter a) = []"
    by (simp_all add: a_def newCompressResponseWriter_def okWriter_def)
  have broken: "crw_err brokenSink \<noteq> None"
    by (simp add: brokenSink_def)
  from Close_flushes_after_check [OF refl, where cdc = sampleCodec and crw = s4] f4
  have 1: "last (rw_calls (crw_ResponseWriter (fst (Close sampleCodec s4)))) = EvFlush"
    by auto
  from Close_flushes_after_check [OF refl, where cdc = sampleCodec and crw = a] fa
  have 2: "rw_calls (crw_ResponseWriter (fst (Close sampleCodec a))) = [EvFlush]"
    by simp
  from Close_flushes_after_check [OF refl, where cdc = sampleCodec and crw = brokenSink] broken
  have 3: "fst (Close sampleCodec brokenSink) = brokenSink"
    by simp
  from 1 2 3 broken show ?thesis
    unfolding s4_def a_def by simp
qed

text \<open>
  C8 does not hold as stated: after a failed write the sink holds an error, and
  \<open>Close\<close> returns it without a flush of the underlying writer, which is a flusher: the
  calls it has received end with the failed write.
\<close>

theorem Close_no_flush_counterexample:
  "crw_err (fst (Write sampleCodec defaults
      (newCompressResponseWriter (failingWriter Map.empty) compGzip BestCompression) ''abc'')) =
     Some (ErrWrap (ErrIO ''broken pipe'') ''Write in compressResponseWriter failed'') \<and>
   rw_flusher (crw_ResponseWriter (fst (Write sampleCodec defaults
      (newCompressResponseWriter (failingWriter Map.empty) compGzip BestCompression) ''abc''))) \<and>
   rw_calls (crw_ResponseWriter (fst (Close sampleCodec (fst (Write sampleCodec defaults
      (newCompressResponseWriter (failingWriter Map.empty) compGzip BestCompression) ''abc''))))) =
     [EvWriteHeader 200 Map.empty, EvWrite ''abc'']"
  by (simp add: sink_defs eval_defs sample_defs)

section \<open>New without a codec\<close>

lemma matchName_compStrings:
  "matchName 0 compStrings e =
     (if e = ''none'' then Some 0 else if e = ''gzip'' then Some 1
      else if e = ''deflate'' then Some 2 else None)"
  by (simp add: compStrings_def hdrContentEncodingGzip_def hdrContentEncodingDeflate_def)

lemma checkEncodings_no_codec:
  "\<forall>t \<in> set (map TrimSpace encs). t \<noteq> ''gzip'' \<and> t \<noteq> ''deflate'' \<Longrightarrow>
   checkEncodings encs = compNone"
  by (induction encs) (auto simp: matchName_compStrings compOfIndex_def)

text \<open>
  What the two loops compute: the first piece that, trimmed, is one of the three names
  decides, and the name \<open>none\<close> decides for \<open>compNone\<close>.
\<close>

lemma checkEncodings_first_name:
  "checkEncodings encs =
     (case find (\<lambda>t. t = ''none'' \<or> t = ''gzip'' \<or> t = ''deflate'') (map TrimSpace encs) of
        None \<Rightarrow> compNone
      | Some t \<Rightarrow> if t = ''gzip'' then compGzip else if t = ''deflate'' then compDeflate
                  else compNone)"
  by (induction encs) (auto simp: matchName_compStrings compOfIndex_def)

lemma Split_hd_prefix: "Split s sep \<noteq> [] \<and> prefix (hd (Split s sep)) s"
  by (induction s) (auto split: list.splits)

lemma Split_sublist: "t \<in> set (Split s sep) \<Longrightarrow> sublist t s"
proof (induction s arbitrary: t)
  case Nil
  then show ?case by simp
next
  case (Cons ch cs)
  show ?case
  proof (cases "ch = sep")
    case True
    with Cons.prems have "t = [] \<or> t \<in> set (Split cs sep)" by simp
    then show ?thesis
      using Cons.IH by (auto simp: sublist_Cons_right)
  next
    case False
    obtain u us where sp: "Split cs sep = u # us"
      using Split_hd_prefix [of cs sep] by (cases "Split cs sep") auto
    with Split_hd_prefix [of cs sep] have pre: "prefix u cs" by simp
    from False sp Cons.prems have "t = ch # u \<or> t \<in> set us" by simp
    then show ?thesis
    proof
      assume "t = ch # u"
      with pre have "prefix t (ch # cs)" by simp
      then show ?thesis by (rule prefix_imp_sublist)
    next
      assume "t \<in> set us"
      with sp have "t \<in> set (Split cs sep)" by simp
      then have "sublist t cs" by (rule Cons.IH)
      then show ?thesis by (simp add: sublist_Cons_right)
    qed
  qed
qed

lemma dropSpaceRune_suffix: "dropSpaceRune qs s = Some r \<Longrightarrow> suffix r s"
  by (induction qs) (auto split: if_splits simp: suffix_drop)

lemma trimLeft_suffix: "suffix (trimLeft qs s) s"
proof (induction qs s rule: trimLeft.induct)
  case (1 qs s)
  show ?case
  proof (cases "dropSpaceRune qs s")
    case None
    then show ?thesis by (simp add: trimLeft.simps)
  next
    case (Some r)
    with 1 have "suffix (trimLeft qs r) r" by simp
    moreover from Some have "suffix r s" by (rule dropSpaceRune_suffix)
    ultimately have "suffix (trimLeft qs r) s" by (rule suffix_order.order_trans)
    with Some show ?thesis by (simp add: trimLeft.simps)
  qed
qed

lemma TrimSpace_sublist: "sublist (TrimSpace s) s"
proof -
  define u where "u = trimLeft spaceRunes s"
  have "suffix (trimLeft (map rev spaceRunes) (rev u)) (rev u)"
    by (rule trimLeft_suffix)
  then have "prefix (TrimSpace s) u"
    by (simp add: TrimSpace_def u_def suffix_to_prefix)
  then have "sublist (TrimSpace s) u"
    by (rule prefix_imp_sublist)
  moreover have "sublist u s"
    unfolding u_def by (rule suffix_imp_sublist [OF trimLeft_suffix])
  ultimately show ?thesis
    by (rule sublist_order.order_trans)
qed

lemma token_sublist:
  "t \<in> set (map TrimSpace (Split v sep)) \<Longrightarrow> sublist t v"
proof -
  assume "t \<in> set (map TrimSpace (Split v sep))"
  then obtain enc where "enc \<in> set (Split v sep)" and t: "t = TrimSpace enc"
    by auto
  then have "sublist enc v" by (simp add: Split_sublist)
  with TrimSpace_sublist [of enc] t show ?thesis
    by (auto intro: sublist_order.order_trans)
qed

lemma absent_no_token:
  "hdr hdrAcceptEncoding = None \<Longrightarrow>
   \<forall>t \<in> set (map TrimSpace (Split (Get hdr hdrAcceptEncoding) CHR '','')). t \<noteq> ''gzip'' \<and> t \<noteq> ''deflate''"
  by (simp add: Get_def TrimSpace_def trimLeft.simps spaceRunes_def)

text \<open>
  C9. When no piece of the request's Accept-Encoding value, trimmed, is \<open>gzip\<close> or
  \<open>deflate\<close> (as when the value contains neither name at all, or the header is absent),
  negotiation gives \<open>compNone\<close> and \<open>New\<close> runs the handler on the underlying writer
  itself: the writer ends exactly as the handler alone leaves it, and nothing is logged.
\<close>

theorem New_passes_through:
  assumes "(\<forall>t \<in> set (map TrimSpace (Split (Get (req_Header r) hdrAcceptEncoding) CHR '','')).
              t \<noteq> ''gzip'' \<and> t \<noteq> ''deflate'') \<or>
           (\<not> sublist ''gzip'' (Get (req_Header r) hdrAcceptEncoding) \<and>
            \<not> sublist ''deflate'' (Get (req_Header r) hdrAcceptEncoding)) \<or>
           req_Header r hdrAcceptEncoding = None"
  shows "checkAcceptEncoding (req_Header r) = compNone \<and>
         New cdc cfg h r rw =
           \<lparr>out_writer = fst (serveDirect (h r) rw),
            out_panic = snd (serveDirect (h r) rw),
            out_log = []\<rparr>"
proof -
  have tok: "\<forall>t \<in> set (map TrimSpace (Split (Get (req_Header r) hdrAcceptEncoding) CHR '','')).
              t \<noteq> ''gzip'' \<and> t \<noteq> ''deflate''"
    using assms
  proof (elim disjE)
    assume "\<not> sublist ''gzip'' (Get (req_Header r) hdrAcceptEncoding) \<and>
            \<not> sublist ''deflate'' (Get (req_Header r) hdrAcceptEncoding)"
    then show ?thesis
      using token_sublist [of _ "Get (req_Header r) hdrAcceptEncoding" "CHR '',''"] by blast
  next
    assume "req_Header r hdrAcceptEncoding = None"
    then show ?thesis by (rule absent_no_token)
  qed
  then have none: "checkAcceptEncoding (req_Header r) = compNone"
    unfolding checkAcceptEncoding_def by (rule checkEncodings_no_codec)
  then show ?thesis
    by (simp add: New_def Let_def split: prod.splits)
qed

theorem New_passes_through_witness:
  "rw_calls (out_writer (New sampleCodec defaults helloHandler brRequest (okWriter Map.empty))) =
     [EvWrite ''hello''] \<and>
   rw_header (out_writer (New sampleCodec defaults helloHandler brRequest (okWriter Map.empty)))
     hdrContentEncoding = None \<and>
   rw_header (out_writer (New sampleCodec defaults helloHandler brRequest (okWriter Map.empty)))
     hdrContentLength = Some [''300''] \<and>
   out_log (New sampleCodec defaults helloHandler brRequest (okWriter Map.empty)) = [] \<and>
   rw_calls (out_writer (New sampleCodec defaults helloHandler bareRequest (okWriter Map.empty))) =
     [EvWrite ''hello'']"
proof -
  have br: "\<forall>t \<in> set (map TrimSpace (Split (Get (req_Header brRequest) hdrAcceptEncoding) CHR '','')).
              t \<noteq> ''gzip'' \<and> t \<noteq> ''deflate''"
    by (simp add: brRequest_def Get_def TrimSpace_def trimLeft.simps spaceRunes_def)
  have bare: "req_Header bareRequest hdrAcceptEncoding = None"
    by (simp add: bareRequest_def)
  have run: "serveDirect (helloHandler r) (okWriter Map.empty) =
      (\<lparr>rw_header = Map.empty(hdrContentType \<mapsto> [''text/html''], hdrContentLength \<mapsto> [''300'']),
        rw_calls = [EvWrite ''hello''], rw_flusher = True, rw_results = []\<rparr>, False)" for r
    by (simp add: helloHandler_def okWriter_def rw_Write_def)
  from New_passes_through [OF disjI1, OF br, where cdc = sampleCodec and cfg = defaults
      and h = helloHandler and rw = "okWriter Map.empty"]
    New_passes_through [OF disjI2, OF disjI2, OF bare, where cdc = sampleCodec and cfg = defaults
      and h = helloHandler and rw = "okWriter Map.empty"]
  show ?thesis
    by (simp add: run hdr_names)
qed

end
